theory Spec2Isabelle
  imports Main "HOL-Library.Word"
begin

unbundle bit_operations_syntax

section \<open>Tuxedo Touch alarm panel client: a model of \<open>alarm_control_panel.py\<close>\<close>

text \<open>
  The module has two classes. \<open>Cipher\<close> turns a parameter set into the encrypted
  blob the panel expects and turns the panel's encrypted answer into a parsed JSON
  document. \<open>TuxedoTouch\<close> posts such blobs, interprets the status text of the
  answer and issues arm and disarm commands.

  Python values are modelled as follows. A \<open>str\<close> is a \<open>string\<close> holding its UTF-8
  bytes, \<open>bytes\<close> is a list of 8-bit words, a \<open>dict\<close> written as a literal in the
  source is an association list in insertion order. Every \<open>raise\<close> is a value
  \<open>Inl e\<close> of a sum type, every normal return a value \<open>Inr x\<close>. Logging, HTTP calls,
  sleeping and scheduling are recorded, in order, in a list of events.
\<close>

subsection \<open>Python values and exceptions\<close>

type_synonym byte = "8 word"

text \<open>
  The exceptions that the module and the library functions it calls can raise. The
  text is the library's message. \<open>BinasciiError\<close> and \<open>JSONDecodeError\<close> are
  subclasses of \<open>ValueError\<close> in Python; \<open>RequestException\<close> stands for the
  connection-level failures of \<open>requests.post\<close> (connection refused, timeout, DNS
  failure).
\<close>

datatype error =
    BinasciiError string
  | ValueError string
  | TypeError string
  | KeyError string
  | AttributeError string
  | JSONDecodeError string
  | RequestException string

text \<open>
  The values an alarm code takes: \<open>None\<close>, a \<open>str\<close> (the code typed by the user)
  or an \<open>int\<close> (the default code of the configuration entry, which the
  configuration flow validates with \<open>cv.positive_int\<close>).
\<close>

datatype pyval = PyNone | PyStr string | PyInt int

fun truthy :: "pyval \<Rightarrow> bool" where
  "truthy PyNone = False"
| "truthy (PyStr s) = (s \<noteq> [])"
| "truthy (PyInt n) = (n \<noteq> 0)"

definition digit_char :: "nat \<Rightarrow> char" where
  "digit_char d = char_of (48 + d)"

fun str_nat :: "nat \<Rightarrow> string" where
  "str_nat n = (if n < 10 then [digit_char n] else str_nat (n div 10) @ [digit_char (n mod 10)])"

declare str_nat.simps [simp del]

definition str_int :: "int \<Rightarrow> string" where
  "str_int i = (if i < 0 then CHR ''-'' # str_nat (nat (- i)) else str_nat (nat i))"

text \<open>Python's \<open>str(x)\<close> on the values above.\<close>

fun py_str :: "pyval \<Rightarrow> string" where
  "py_str PyNone = ''None''"
| "py_str (PyStr s) = s"
| "py_str (PyInt n) = str_int n"

text \<open>
  A parsed JSON document, as \<open>json.loads\<close> returns it. A number with a fraction or
  an exponent becomes a Python \<open>float\<close>; the model keeps its sign and whether it is
  zero (all that truthiness looks at) together with the literal.
\<close>

datatype json =
    JNull
  | JBool bool
  | JInt int
  | JFloat bool string
  | JStr string
  | JArr "json list"
  | JObj "(string \<times> json) list"

text \<open>Truthiness of a JSON value, for \<open>if response:\<close>. The flag of \<open>JFloat\<close> says that the float is not zero.\<close>

fun json_truthy :: "json \<Rightarrow> bool" where
  "json_truthy JNull = False"
| "json_truthy (JBool b) = b"
| "json_truthy (JInt n) = (n \<noteq> 0)"
| "json_truthy (JFloat nz _) = nz"
| "json_truthy (JStr s) = (s \<noteq> [])"
| "json_truthy (JArr xs) = (xs \<noteq> [])"
| "json_truthy (JObj kvs) = (kvs \<noteq> [])"

text \<open>
  \<open>value[key]\<close> with a string key: a dictionary looks the key up and raises
  \<open>KeyError\<close> when it is missing, every other JSON value raises \<open>TypeError\<close>.
\<close>

fun subscript :: "json \<Rightarrow> string \<Rightarrow> error + json" where
  "subscript (JObj kvs) k = (case map_of kvs k of Some v \<Rightarrow> Inr v | None \<Rightarrow> Inl (KeyError k))"
| "subscript _ k = Inl (TypeError ''indices must be integers or the object is not subscriptable'')"

subsection \<open>Text and bytes\<close>

definition byte_of_char :: "char \<Rightarrow> byte" where
  "byte_of_char c = of_char c"

definition char_of_byte :: "byte \<Rightarrow> char" where
  "char_of_byte b = char_of (unat b)"

text \<open>\<open>s.encode("UTF-8")\<close>: the string already holds its UTF-8 bytes.\<close>

definition encode_utf8 :: "string \<Rightarrow> byte list" where
  "encode_utf8 s = map byte_of_char s"

text \<open>
  \<open>b.decode("UTF-8")\<close> checks that the bytes are well-formed UTF-8 (no overlong
  forms, no surrogates, nothing beyond U+10FFFF) and raises otherwise.
\<close>

definition cont_byte :: "byte \<Rightarrow> bool" where
  "cont_byte b = (0x80 \<le> b \<and> b \<le> 0xBF)"

fun utf8_valid :: "byte list \<Rightarrow> bool" where
  "utf8_valid [] = True"
| "utf8_valid (a # rest) =
     (if a < 0x80 then utf8_valid rest
      else if 0xC2 \<le> a \<and> a \<le> 0xDF then
        (case rest of b # rest1 \<Rightarrow> cont_byte b \<and> utf8_valid rest1 | _ \<Rightarrow> False)
      else if 0xE0 \<le> a \<and> a \<le> 0xEF then
        (case rest of
           b # c # rest2 \<Rightarrow>
             cont_byte b \<and> cont_byte c \<and> (if a = 0xE0 then 0xA0 \<le> b else True) \<and>
             (if a = 0xED then b \<le> 0x9F else True) \<and> utf8_valid rest2
         | _ \<Rightarrow> False)
      else if 0xF0 \<le> a \<and> a \<le> 0xF4 then
        (case rest of
           b # c # d # rest3 \<Rightarrow>
             cont_byte b \<and> cont_byte c \<and> cont_byte d \<and> (if a = 0xF0 then 0x90 \<le> b else True) \<and>
             (if a = 0xF4 then b \<le> 0x8F else True) \<and> utf8_valid rest3
         | _ \<Rightarrow> False)
      else False)"

definition decode_utf8 :: "byte list \<Rightarrow> error + string" where
  "decode_utf8 bs =
     (if utf8_valid bs then Inr (map char_of_byte bs)
      else Inl (ValueError ''UnicodeDecodeError''))"

definition is_ascii :: "string \<Rightarrow> bool" where
  "is_ascii s = list_all (\<lambda>c. (of_char c :: nat) < 128) s"

subsection \<open>\<open>binascii.a2b_hex\<close>\<close>

definition hex_value :: "char \<Rightarrow> nat option" where
  "hex_value c =
     (let n = (of_char c :: nat) in
      if 48 \<le> n \<and> n \<le> 57 then Some (n - 48)
      else if 97 \<le> n \<and> n \<le> 102 then Some (n - 87)
      else if 65 \<le> n \<and> n \<le> 70 then Some (n - 55)
      else None)"

fun hex_pairs :: "string \<Rightarrow> error + byte list" where
  "hex_pairs (a # b # rest) =
     (case (hex_value a, hex_value b) of
        (Some h, Some l) \<Rightarrow>
          (case hex_pairs rest of Inl e \<Rightarrow> Inl e | Inr bs \<Rightarrow> Inr (of_nat (16 * h + l) # bs))
      | _ \<Rightarrow> Inl (BinasciiError ''Non-hexadecimal digit found''))"
| "hex_pairs _ = Inr []"

text \<open>
  A \<open>str\<close> argument must be ASCII; an odd number of digits is refused before the
  digits are looked at.
\<close>

definition a2b_hex :: "string \<Rightarrow> error + byte list" where
  "a2b_hex s =
     (if \<not> is_ascii s then Inl (ValueError ''string argument should contain only ASCII characters'')
      else if odd (length s) then Inl (BinasciiError ''Odd-length string'')
      else hex_pairs s)"

subsection \<open>\<open>urllib.parse.urlencode\<close>\<close>

text \<open>
  With its default arguments \<open>urlencode\<close> quotes every key and every value with
  \<open>quote_plus\<close> and joins the pairs \<open>key=value\<close> with \<open>&\<close>. \<open>quote_plus\<close> keeps
  letters, digits and \<open>_.-~\<close>, writes a space as \<open>+\<close> and every other byte of the
  UTF-8 form as \<open>%XX\<close> with upper-case digits.
\<close>

definition always_safe :: "char \<Rightarrow> bool" where
  "always_safe c =
     (let n = (of_char c :: nat) in
      (65 \<le> n \<and> n \<le> 90) \<or> (97 \<le> n \<and> n \<le> 122) \<or> (48 \<le> n \<and> n \<le> 57) \<or>
      c = CHR ''_'' \<or> c = CHR ''.'' \<or> c = CHR ''-'' \<or> c = CHR ''~'')"

definition upper_hex_digit :: "nat \<Rightarrow> char" where
  "upper_hex_digit d = (if d < 10 then char_of (48 + d) else char_of (55 + d))"

definition quote_char :: "char \<Rightarrow> string" where
  "quote_char c =
     (if c = CHR '' '' then ''+''
      else if always_safe c then [c]
      else [CHR ''%'', upper_hex_digit ((of_char c :: nat) div 16), upper_hex_digit ((of_char c :: nat) mod 16)])"

definition quote_plus :: "string \<Rightarrow> string" where
  "quote_plus s = concat (map quote_char s)"

fun join_amp :: "string list \<Rightarrow> string" where
  "join_amp [] = []"
| "join_amp [x] = x"
| "join_amp (x # y # ys) = x @ ''&'' @ join_amp (y # ys)"

definition urlencode :: "(string \<times> string) list \<Rightarrow> string" where
  "urlencode query = join_amp (map (\<lambda>(k, v). quote_plus k @ ''='' @ quote_plus v) query)"

subsection \<open>\<open>Crypto.Util.Padding\<close>\<close>

definition pad :: "byte list \<Rightarrow> nat \<Rightarrow> byte list" where
  "pad data_to_pad block_size =
     (let padding_len = block_size - length data_to_pad mod block_size
      in data_to_pad @ replicate padding_len (of_nat padding_len))"

definition unpad :: "byte list \<Rightarrow> nat \<Rightarrow> error + byte list" where
  "unpad padded_data block_size =
     (let pdata_len = length padded_data in
      if pdata_len = 0 then Inl (ValueError ''Zero-length input cannot be unpadded'')
      else if pdata_len mod block_size \<noteq> 0 then Inl (ValueError ''Input data is not padded'')
      else
        let padding_len = unat (last padded_data) in
        if padding_len < 1 \<or> padding_len > min block_size pdata_len
        then Inl (ValueError ''Padding is incorrect.'')
        else if drop (pdata_len - padding_len) padded_data \<noteq> replicate padding_len (of_nat padding_len)
        then Inl (ValueError ''PKCS#7 padding is incorrect.'')
        else Inr (take (pdata_len - padding_len) padded_data))"

subsection \<open>\<open>binascii.b2a_base64\<close> and \<open>binascii.a2b_base64\<close>\<close>

text \<open>The base64 alphabet: the character of a 6-bit value and the value of a character.\<close>

definition b2a_char :: "byte \<Rightarrow> char" where
  "b2a_char v =
     (let n = unat v in
      if n < 26 then char_of (65 + n)
      else if n < 52 then char_of (71 + n)
      else if n < 62 then char_of (n - 4)
      else if n = 62 then CHR ''+''
      else CHR ''/'')"

definition a2b_char :: "char \<Rightarrow> byte option" where
  "a2b_char c =
     (let n = (of_char c :: nat) in
      if 65 \<le> n \<and> n \<le> 90 then Some (of_nat (n - 65))
      else if 97 \<le> n \<and> n \<le> 122 then Some (of_nat (n - 71))
      else if 48 \<le> n \<and> n \<le> 57 then Some (of_nat (n + 4))
      else if c = CHR ''+'' then Some 62
      else if c = CHR ''/'' then Some 63
      else None)"

text \<open>
  Encoding takes three bytes to four characters; one or two bytes left over are
  filled up with \<open>=\<close>. \<open>b2a_base64\<close> appends a newline.
\<close>

fun b64_groups :: "byte list \<Rightarrow> string" where
  "b64_groups [] = []"
| "b64_groups [a] =
     [b2a_char (drop_bit 2 a), b2a_char (push_bit 4 (a AND 3)), CHR ''='', CHR ''='']"
| "b64_groups [a, b] =
     [b2a_char (drop_bit 2 a), b2a_char (push_bit 4 (a AND 3) OR drop_bit 4 b),
      b2a_char (push_bit 2 (b AND 0xF)), CHR ''='']"
| "b64_groups (a # b # c # rest) =
     [b2a_char (drop_bit 2 a), b2a_char (push_bit 4 (a AND 3) OR drop_bit 4 b),
      b2a_char (push_bit 2 (b AND 0xF) OR drop_bit 6 c), b2a_char (c AND 0x3F)] @ b64_groups rest"

definition b2a_base64 :: "byte list \<Rightarrow> byte list" where
  "b2a_base64 data = encode_utf8 (b64_groups data @ [CHR 0x0A])"

text \<open>
  Decoding in its default, lenient mode, as the loop of the C implementation: a
  character outside the alphabet is skipped; \<open>=\<close> ends the input once it completes a
  group of four that already holds two or three characters, and is skipped otherwise.
  \<open>quad_pos\<close> counts the characters of the current group, \<open>leftchar\<close> holds the bits
  not yet written, \<open>pads\<close> counts the \<open>=\<close> seen since the last character.
\<close>

fun a2b_loop :: "string \<Rightarrow> nat \<Rightarrow> byte \<Rightarrow> nat \<Rightarrow> byte list \<Rightarrow> error + byte list" where
  "a2b_loop [] quad_pos leftchar pads bin_data =
     (if quad_pos \<noteq> 0 then
        (if quad_pos = 1
         then Inl (BinasciiError ''Invalid base64-encoded string: number of data characters cannot be 1 more than a multiple of 4'')
         else Inl (BinasciiError ''Incorrect padding''))
      else Inr bin_data)"
| "a2b_loop (this_ch # rest) quad_pos leftchar pads bin_data =
     (if this_ch = CHR ''='' then
        (if quad_pos \<ge> 2 \<and> quad_pos + (pads + 1) \<ge> 4 then Inr bin_data
         else a2b_loop rest quad_pos leftchar (if quad_pos \<ge> 2 then pads + 1 else pads) bin_data)
      else
        (case a2b_char this_ch of
           None \<Rightarrow> a2b_loop rest quad_pos leftchar pads bin_data
         | Some v \<Rightarrow>
             (if quad_pos = 0 then a2b_loop rest 1 v 0 bin_data
              else if quad_pos = 1 then
                a2b_loop rest 2 (v AND 0x0F) 0 (bin_data @ [push_bit 2 leftchar OR drop_bit 4 v])
              else if quad_pos = 2 then
                a2b_loop rest 3 (v AND 0x03) 0 (bin_data @ [push_bit 4 leftchar OR drop_bit 2 v])
              else a2b_loop rest 0 0 0 (bin_data @ [push_bit 6 leftchar OR v]))))"

text \<open>A \<open>str\<close> argument must be ASCII.\<close>

definition a2b_base64 :: "string \<Rightarrow> error + byte list" where
  "a2b_base64 s =
     (if \<not> is_ascii s then Inl (ValueError ''string argument should contain only ASCII characters'')
      else a2b_loop s 0 0 0 [])"

subsection \<open>\<open>json.loads\<close> on UTF-8 text\<close>

text \<open>
  A concrete parser, used where the model is evaluated on concrete inputs. It
  follows the scanner of the \<open>json\<close> module: white space is blank, tab, newline and
  carriage return; a string may not hold control characters and knows the escapes of a
  backslash followed by a quote, a backslash, a slash, one of \<open>b f n r t\<close>, or \<open>u\<close> and
  four hexadecimal digits; a number is an integer part, an optional
  fraction and an optional exponent; \<open>NaN\<close>, \<open>Infinity\<close> and \<open>-Infinity\<close> are
  accepted; a later member of an object replaces an earlier one with the same name.
  The document must be UTF-8: the detection of UTF-16 and UTF-32 and the limit on the
  depth of nesting are not modelled.
\<close>

definition is_ws :: "char \<Rightarrow> bool" where
  "is_ws c = (c = CHR '' '' \<or> c = CHR 0x09 \<or> c = CHR 0x0A \<or> c = CHR 0x0D)"

definition skip_ws :: "string \<Rightarrow> string" where
  "skip_ws s = dropWhile is_ws s"

definition is_digit :: "char \<Rightarrow> bool" where
  "is_digit c = (48 \<le> (of_char c :: nat) \<and> (of_char c :: nat) \<le> 57)"

definition digits_value :: "string \<Rightarrow> nat" where
  "digits_value ds = foldl (\<lambda>acc c. 10 * acc + ((of_char c :: nat) - 48)) 0 ds"

text \<open>The four hexadecimal digits of a \<open>u\<close> escape.\<close>

definition parse_u4 :: "string \<Rightarrow> nat option" where
  "parse_u4 s =
     (case map hex_value (take 4 s) of
        [Some a, Some b, Some c, Some d] \<Rightarrow> Some (4096 * a + 256 * b + 16 * c + d)
      | _ \<Rightarrow> None)"

definition utf8_encode :: "nat \<Rightarrow> string" where
  "utf8_encode cp =
     (if cp < 0x80 then [char_of cp]
      else if cp < 0x800 then [char_of (0xC0 + cp div 64), char_of (0x80 + cp mod 64)]
      else if cp < 0x10000 then
        [char_of (0xE0 + cp div 4096), char_of (0x80 + cp div 64 mod 64), char_of (0x80 + cp mod 64)]
      else
        [char_of (0xF0 + cp div 262144), char_of (0x80 + cp div 4096 mod 64),
         char_of (0x80 + cp div 64 mod 64), char_of (0x80 + cp mod 64)])"

definition simple_escape :: "char \<Rightarrow> char option" where
  "simple_escape e =
     (if e = CHR 0x22 then Some (CHR 0x22)
      else if e = CHR 0x5C then Some (CHR 0x5C)
      else if e = CHR ''/'' then Some (CHR ''/'')
      else if e = CHR ''b'' then Some (CHR 0x08)
      else if e = CHR ''f'' then Some (CHR 0x0C)
      else if e = CHR ''n'' then Some (CHR 0x0A)
      else if e = CHR ''r'' then Some (CHR 0x0D)
      else if e = CHR ''t'' then Some (CHR 0x09)
      else None)"

text \<open>
  The text after an opening quote, up to the closing quote. A high surrogate
  followed by an escaped low surrogate is one character.
\<close>

fun scanstring :: "string \<Rightarrow> string \<Rightarrow> error + (string \<times> string)" where
  "scanstring [] acc = Inl (JSONDecodeError ''Unterminated string starting at'')"
| "scanstring (c # cs) acc =
     (if c = CHR 0x22 then Inr (acc, cs)
      else if c = CHR 0x5C then
        (case cs of
           [] \<Rightarrow> Inl (JSONDecodeError ''Unterminated string starting at'')
         | e # cs1 \<Rightarrow>
             if e = CHR ''u'' then
               (case parse_u4 cs1 of
                  None \<Rightarrow> Inl (JSONDecodeError ''Invalid unicode escape'')
                | Some uni \<Rightarrow>
                    (case (if 0xD800 \<le> uni \<and> uni \<le> 0xDBFF \<and> take 2 (drop 4 cs1) = [CHR 0x5C, CHR ''u'']
                           then parse_u4 (drop 6 cs1) else None) of
                       Some uni2 \<Rightarrow>
                         if 0xDC00 \<le> uni2 \<and> uni2 \<le> 0xDFFF
                         then scanstring (drop 10 cs1)
                                (acc @ utf8_encode (0x10000 + (uni - 0xD800) * 1024 + (uni2 - 0xDC00)))
                         else scanstring (drop 4 cs1) (acc @ utf8_encode uni)
                     | None \<Rightarrow> scanstring (drop 4 cs1) (acc @ utf8_encode uni)))
             else
               (case simple_escape e of
                  None \<Rightarrow> Inl (JSONDecodeError ''Invalid escape'')
                | Some ch \<Rightarrow> scanstring cs1 (acc @ [ch])))
      else if (of_char c :: nat) < 0x20 then Inl (JSONDecodeError ''Invalid control character at'')
      else scanstring cs (acc @ [c]))"

text \<open>
  A float is not zero when its digits are not all zero and its value lies above half
  of the smallest positive double, \<open>2 ^ - 1075\<close>; \<open>m\<close> holds the digits of the
  integer part and the fraction, \<open>e\<close> the decimal exponent that goes with them.
\<close>

definition float_nonzero :: "nat \<Rightarrow> int \<Rightarrow> bool" where
  "float_nonzero m e = (m \<noteq> 0 \<and> (0 \<le> e \<or> (10 :: int) ^ nat (- e) < int m * 2 ^ 1075))"

text \<open>
  A number at the head of the text, if there is one: the value and the rest.
\<close>

definition match_number :: "string \<Rightarrow> (json \<times> string) option" where
  "match_number s =
     (let neg = (s \<noteq> [] \<and> hd s = CHR ''-'');
          s1 = (if neg then tl s else s);
          ip = (if s1 \<noteq> [] \<and> hd s1 = CHR ''0'' then ''0'' else takeWhile is_digit s1);
          s2 = drop (length ip) s1
      in if ip = [] then None
         else
           let fr = (if s2 \<noteq> [] \<and> hd s2 = CHR ''.'' then takeWhile is_digit (tl s2) else []);
               s3 = (if fr = [] then s2 else drop (Suc (length fr)) s2);
               has_e = (s3 \<noteq> [] \<and> (hd s3 = CHR ''e'' \<or> hd s3 = CHR ''E''));
               s4 = (if has_e then tl s3 else []);
               sg = (if s4 \<noteq> [] \<and> (hd s4 = CHR ''+'' \<or> hd s4 = CHR ''-'') then [hd s4] else []);
               ex = (if has_e then takeWhile is_digit (drop (length sg) s4) else []);
               s5 = (if ex = [] then s3 else drop (Suc (length sg + length ex)) s3);
               lit = take (length s - length s5) s
           in if fr = [] \<and> ex = [] then
                Some (JInt (if neg then - int (digits_value ip) else int (digits_value ip)), s5)
              else
                Some (JFloat
                        (float_nonzero (digits_value (ip @ fr))
                           ((if sg = ''-'' then - int (digits_value ex) else int (digits_value ex))
                              - int (length fr)))
                        lit, s5))"

definition starts_with :: "string \<Rightarrow> string \<Rightarrow> bool" where
  "starts_with s p = (take (length p) s = p)"

text \<open>\<open>dict(pairs)\<close>: a repeated name keeps its first place and takes the last value.\<close>

fun dict_of_pairs :: "(string \<times> json) list \<Rightarrow> (string \<times> json) list \<Rightarrow> (string \<times> json) list" where
  "dict_of_pairs d [] = d"
| "dict_of_pairs d ((k, v) # rest) =
     dict_of_pairs (if k \<in> fst ` set d then map (\<lambda>(k', v'). if k' = k then (k', v) else (k', v')) d
                    else d @ [(k, v)]) rest"

text \<open>
  The scanner. The first argument bounds the number of nested calls; \<open>json_loads_utf8\<close>
  starts it with more than the text can use.
\<close>

fun scan_once :: "nat \<Rightarrow> string \<Rightarrow> error + (json \<times> string)"
  and scan_array :: "nat \<Rightarrow> string \<Rightarrow> json list \<Rightarrow> error + (json \<times> string)"
  and scan_object :: "nat \<Rightarrow> string \<Rightarrow> (string \<times> json) list \<Rightarrow> error + (json \<times> string)"
where
  "scan_once 0 s = Inl (JSONDecodeError ''nesting too deep'')"
| "scan_once (Suc n) s =
     (case s of
        [] \<Rightarrow> Inl (JSONDecodeError ''Expecting value'')
      | c # rest \<Rightarrow>
          if c = CHR 0x22 then
            (case scanstring rest [] of Inl e \<Rightarrow> Inl e | Inr (str, rest1) \<Rightarrow> Inr (JStr str, rest1))
          else if c = CHR ''{'' then
            (let rest1 = skip_ws rest in
             if starts_with rest1 ''}'' then Inr (JObj [], tl rest1) else scan_object n rest1 [])
          else if c = CHR ''['' then
            (let rest1 = skip_ws rest in
             if starts_with rest1 '']'' then Inr (JArr [], tl rest1) else scan_array n rest1 [])
          else if starts_with s ''null'' then Inr (JNull, drop 4 s)
          else if starts_with s ''true'' then Inr (JBool True, drop 4 s)
          else if starts_with s ''false'' then Inr (JBool False, drop 5 s)
          else if starts_with s ''NaN'' then Inr (JFloat True ''NaN'', drop 3 s)
          else if starts_with s ''Infinity'' then Inr (JFloat True ''Infinity'', drop 8 s)
          else if starts_with s ''-Infinity'' then Inr (JFloat True ''-Infinity'', drop 9 s)
          else (case match_number s of
                  None \<Rightarrow> Inl (JSONDecodeError ''Expecting value'')
                | Some r \<Rightarrow> Inr r))"
| "scan_array 0 s vals = Inl (JSONDecodeError ''nesting too deep'')"
| "scan_array (Suc n) s vals =
     (case scan_once n s of
        Inl e \<Rightarrow> Inl e
      | Inr (v, rest) \<Rightarrow>
          (let rest1 = skip_ws rest in
           if starts_with rest1 '']'' then Inr (JArr (vals @ [v]), tl rest1)
           else if starts_with rest1 '','' then scan_array n (skip_ws (tl rest1)) (vals @ [v])
           else Inl (JSONDecodeError ''Expecting , delimiter'')))"
| "scan_object 0 s pairs = Inl (JSONDecodeError ''nesting too deep'')"
| "scan_object (Suc n) s pairs =
     (if \<not> starts_with s [CHR 0x22]
      then Inl (JSONDecodeError ''Expecting property name enclosed in double quotes'')
      else
        (case scanstring (tl s) [] of
           Inl e \<Rightarrow> Inl e
         | Inr (key, rest) \<Rightarrow>
             (let rest1 = skip_ws rest in
              if \<not> starts_with rest1 '':'' then Inl (JSONDecodeError ''Expecting : delimiter'')
              else
                (case scan_once n (skip_ws (tl rest1)) of
                   Inl e \<Rightarrow> Inl e
                 | Inr (v, rest2) \<Rightarrow>
                     (let rest3 = skip_ws rest2 in
                      if starts_with rest3 ''}'' then Inr (JObj (dict_of_pairs [] (pairs @ [(key, v)])), tl rest3)
                      else if starts_with rest3 '','' then scan_object n (skip_ws (tl rest3)) (pairs @ [(key, v)])
                      else Inl (JSONDecodeError ''Expecting , delimiter''))))))"

definition json_decode :: "string \<Rightarrow> error + json" where
  "json_decode s =
     (case scan_once (2 * length s + 2) (skip_ws s) of
        Inl e \<Rightarrow> Inl e
      | Inr (v, rest) \<Rightarrow> if skip_ws rest = [] then Inr v else Inl (JSONDecodeError ''Extra data''))"

definition json_loads_utf8 :: "byte list \<Rightarrow> error + json" where
  "json_loads_utf8 b =
     (case decode_utf8 b of
        Inl e \<Rightarrow> Inl e
      | Inr s \<Rightarrow> json_decode (if starts_with s [CHR 0xEF, CHR 0xBB, CHR 0xBF] then drop 3 s else s))"

subsection \<open>The library functions that stay abstract\<close>

text \<open>
  The AES block transformation, the random generator of the cryptography library and
  the JSON parser are parameters of the model: \<open>aes_encrypt_block key block\<close> and
  \<open>aes_decrypt_block key block\<close> transform one block of 16 bytes,
  \<open>get_random_bytes n\<close> is what the generator would hand out, \<open>json_loads\<close> is
  \<open>json.loads\<close> on \<open>bytes\<close>.
\<close>

record lib =
  aes_encrypt_block :: "byte list \<Rightarrow> byte list \<Rightarrow> byte list"
  aes_decrypt_block :: "byte list \<Rightarrow> byte list \<Rightarrow> byte list"
  get_random_bytes :: "nat \<Rightarrow> byte list"
  json_loads :: "byte list \<Rightarrow> error + json"

subsection \<open>\<open>Crypto.Cipher.AES\<close> in CBC mode\<close>

text \<open>
  A cipher object holds the key and the chaining value, which starts as the IV and
  becomes the last ciphertext block after each call. \<open>AES.new\<close> accepts keys of 16,
  24 or 32 bytes and an IV of 16 bytes; when no IV is given it draws a random one.
\<close>

record aes_cbc =
  cbc_key :: "byte list"
  cbc_iv :: "byte list"

definition AES_new :: "lib \<Rightarrow> byte list \<Rightarrow> byte list option \<Rightarrow> error + aes_cbc" where
  "AES_new L key iv_arg =
     (if length key \<noteq> 16 \<and> length key \<noteq> 24 \<and> length key \<noteq> 32
      then Inl (ValueError ''Incorrect AES key length'')
      else
        let iv = (case iv_arg of None \<Rightarrow> get_random_bytes L 16 | Some v \<Rightarrow> v) in
        if length iv \<noteq> 16 then Inl (ValueError ''Incorrect IV length (it must be 16 bytes long)'')
        else Inr \<lparr>cbc_key = key, cbc_iv = iv\<rparr>)"

definition xor_bytes :: "byte list \<Rightarrow> byte list \<Rightarrow> byte list" where
  "xor_bytes xs ys = map2 (XOR) xs ys"

function cbc_encrypt_blocks :: "(byte list \<Rightarrow> byte list) \<Rightarrow> byte list \<Rightarrow> byte list \<Rightarrow> byte list \<times> byte list" where
  "cbc_encrypt_blocks E iv data =
     (if data = [] then ([], iv)
      else
        let c = E (xor_bytes (take 16 data) iv);
            (cs, iv') = cbc_encrypt_blocks E c (drop 16 data)
        in (c @ cs, iv'))"
  by pat_completeness auto
termination
  by (relation "measure (\<lambda>(E, iv, data). length data)") auto

function cbc_decrypt_blocks :: "(byte list \<Rightarrow> byte list) \<Rightarrow> byte list \<Rightarrow> byte list \<Rightarrow> byte list \<times> byte list" where
  "cbc_decrypt_blocks D iv data =
     (if data = [] then ([], iv)
      else
        let c = take 16 data;
            p = xor_bytes (D c) iv;
            (ps, iv') = cbc_decrypt_blocks D c (drop 16 data)
        in (p @ ps, iv'))"
  by pat_completeness auto
termination
  by (relation "measure (\<lambda>(D, iv, data). length data)") auto

declare cbc_encrypt_blocks.simps [simp del] cbc_decrypt_blocks.simps [simp del]

text \<open>
  \<open>cipher.encrypt(data)\<close> and \<open>cipher.decrypt(data)\<close>: the data must be a whole
  number of blocks. The result comes with the cipher object in its new state.
\<close>

definition cbc_encrypt :: "lib \<Rightarrow> aes_cbc \<Rightarrow> byte list \<Rightarrow> error + (byte list \<times> aes_cbc)" where
  "cbc_encrypt L cipher plaintext =
     (if length plaintext mod 16 \<noteq> 0
      then Inl (ValueError ''Data must be padded to 16 byte boundary in CBC mode'')
      else
        let (ct, iv') = cbc_encrypt_blocks (aes_encrypt_block L (cbc_key cipher)) (cbc_iv cipher) plaintext
        in Inr (ct, cipher\<lparr>cbc_iv := iv'\<rparr>))"

definition cbc_decrypt :: "lib \<Rightarrow> aes_cbc \<Rightarrow> byte list \<Rightarrow> error + (byte list \<times> aes_cbc)" where
  "cbc_decrypt L cipher ciphertext =
     (if length ciphertext mod 16 \<noteq> 0
      then Inl (ValueError ''Data must be padded to 16 byte boundary in CBC mode'')
      else
        let (pt, iv') = cbc_decrypt_blocks (aes_decrypt_block L (cbc_key cipher)) (cbc_iv cipher) ciphertext
        in Inr (pt, cipher\<lparr>cbc_iv := iv'\<rparr>))"

subsection \<open>Class \<open>Cipher\<close>\<close>

text \<open>The object holds \<open>_key_bin\<close> and \<open>_iv_bin\<close>. \<open>__init__\<close> converts the key and the IV from hexadecimal text.\<close>

record cipher =
  key_bin :: "byte list"
  iv_bin :: "byte list"

definition Cipher_init :: "string \<Rightarrow> string \<Rightarrow> error + cipher" where
  "Cipher_init key iv =
     (case a2b_hex key of
        Inl e \<Rightarrow> Inl e
      | Inr kb \<Rightarrow>
          (case a2b_hex iv of
             Inl e \<Rightarrow> Inl e
           | Inr ib \<Rightarrow> Inr \<lparr>key_bin = kb, iv_bin = ib\<rparr>))"

definition encrypt_params :: "lib \<Rightarrow> cipher \<Rightarrow> (string \<times> string) list \<Rightarrow> error + string" where
  "encrypt_params L self params =
     (let params_encoded = encode_utf8 (urlencode params);
          params_padded = pad params_encoded 16
      in case AES_new L (key_bin self) (Some (iv_bin self)) of
           Inl e \<Rightarrow> Inl e
         | Inr cipher \<Rightarrow>
             (case cbc_encrypt L cipher params_padded of
                Inl e \<Rightarrow> Inl e
              | Inr (params_encrypted, _) \<Rightarrow> decode_utf8 (b2a_base64 params_encrypted)))"

definition decrypt_params :: "lib \<Rightarrow> cipher \<Rightarrow> string \<Rightarrow> error + json" where
  "decrypt_params L self params_encrypted =
     (case AES_new L (key_bin self) (Some (iv_bin self)) of
        Inl e \<Rightarrow> Inl e
      | Inr cipher \<Rightarrow>
          (case a2b_base64 params_encrypted of
             Inl e \<Rightarrow> Inl e
           | Inr raw \<Rightarrow>
               (case cbc_decrypt L cipher raw of
                  Inl e \<Rightarrow> Inl e
                | Inr (params_decrypted, _) \<Rightarrow>
                    (case unpad params_decrypted 16 of
                       Inl e \<Rightarrow> Inl e
                     | Inr params \<Rightarrow> json_loads L params))))"

subsection \<open>The world around the panel client\<close>

text \<open>
  \<open>requests.post\<close> sends one request and either raises or returns a response, of
  which the module reads \<open>status_code\<close> and \<open>json()\<close>. The panel and the network
  are a function from requests to replies.
\<close>

record request =
  req_url :: string
  req_headers :: "(string \<times> string) list"
  req_data :: "(string \<times> string) list"
  req_verify :: bool

datatype reply = Raises error | Response int "error + json"

datatype level = INFO | WARNING | ERROR

text \<open>
  What an operation does besides returning: a log record (its level, its text and
  the objects formatted into it; \<open>_LOGGER.exception\<close> logs at level \<open>ERROR\<close>), a
  call of \<open>requests.post\<close>, \<open>asyncio.sleep\<close> with its duration, and
  \<open>async_schedule_update_ha_state()\<close>.
\<close>

datatype event =
    Log level string "json option list"
  | HttpPost request
  | Sleep nat
  | ScheduleUpdate

datatype alarm_state =
    STATE_ALARM_ARMED_AWAY
  | STATE_ALARM_ARMED_HOME
  | STATE_ALARM_ARMED_NIGHT
  | STATE_ALARM_ARMING
  | STATE_ALARM_DISARMED
  | STATE_UNAVAILABLE

subsection \<open>Class \<open>TuxedoTouch\<close>\<close>

text \<open>
  The attributes that the methods read or write: \<open>_url\<close>, \<open>_key\<close>, \<open>_iv\<close>,
  \<open>_code\<close>, \<open>_cipher\<close> and \<open>_attr_state\<close>, which is unset until the first update.
\<close>

record tuxedo =
  self_url :: string
  self_key :: string
  self_iv :: string
  self_code :: pyval
  self_cipher :: cipher
  self_attr_state :: "alarm_state option"

definition TuxedoTouch_init :: "string \<Rightarrow> string \<Rightarrow> string \<Rightarrow> pyval \<Rightarrow> error + tuxedo" where
  "TuxedoTouch_init ip_address secret_key initial_value code =
     (case Cipher_init secret_key initial_value of
        Inl e \<Rightarrow> Inl e
      | Inr c \<Rightarrow>
          Inr \<lparr>self_url = ''https://'' @ ip_address @ ''/system_http_api/API_REV01'',
               self_key = secret_key, self_iv = initial_value, self_code = code,
               self_cipher = c, self_attr_state = None\<rparr>)"

text \<open>
  \<open>_post_request\<close> returns the decrypted answer, or \<open>None\<close> after a status other
  than 200. A \<open>Result\<close> that is not a string makes \<open>a2b_base64\<close> raise
  \<open>TypeError\<close>.
\<close>

definition post_request ::
  "lib \<Rightarrow> (request \<Rightarrow> reply) \<Rightarrow> tuxedo \<Rightarrow> string \<Rightarrow> (string \<times> string) list \<Rightarrow> event list
     \<Rightarrow> (error + json option) \<times> event list" where
  "post_request L net self endpoint params evs =
     (case encrypt_params L (self_cipher self) params of
        Inl e \<Rightarrow> (Inl e, evs)
      | Inr encrypted_params \<Rightarrow>
          let req = \<lparr>req_url = self_url self @ endpoint,
                     req_headers = [(''authtoken'', self_key self), (''identity'', self_iv self)],
                     req_data = [(''param'', encrypted_params)],
                     req_verify = False\<rparr>;
              evs1 = evs @ [HttpPost req]
          in (case net req of
                Raises e \<Rightarrow> (Inl e, evs1)
              | Response status_code body \<Rightarrow>
                  (if status_code = 200 then
                     (case body of
                        Inl e \<Rightarrow> (Inl e, evs1)
                      | Inr doc \<Rightarrow>
                          (case subscript doc ''Result'' of
                             Inl e \<Rightarrow> (Inl e, evs1)
                           | Inr (JStr blob) \<Rightarrow>
                               (case decrypt_params L (self_cipher self) blob of
                                  Inl e \<Rightarrow> (Inl e, evs1)
                                | Inr answer \<Rightarrow> (Inr (Some answer), evs1))
                           | Inr _ \<Rightarrow>
                               (Inl (TypeError ''argument should be bytes, buffer or ASCII string''), evs1)))
                   else
                     (Inr None,
                      evs1 @ [Log ERROR (''endpoint '' @ endpoint @ '' returned a '' @ str_int status_code) []]))))"

text \<open>\<open>if response:\<close> on what \<open>_post_request\<close> returned.\<close>

fun response_truthy :: "json option \<Rightarrow> bool" where
  "response_truthy None = False"
| "response_truthy (Some j) = json_truthy j"

text \<open>\<open>s.endswith(suffix)\<close>.\<close>

definition endswith :: "string \<Rightarrow> string \<Rightarrow> bool" where
  "endswith s suffix = (length suffix \<le> length s \<and> drop (length s - length suffix) s = suffix)"

text \<open>
  The chain of comparisons in \<open>async_update\<close>, with the final
  \<open>STATE_UNAVAILABLE if state is None else state\<close>.
\<close>

definition status_state :: "string \<Rightarrow> alarm_state option" where
  "status_state status =
     (if status = ''Armed Away'' then Some STATE_ALARM_ARMED_AWAY
      else if status = ''Armed Instant'' then Some STATE_ALARM_ARMED_NIGHT
      else if status = ''Armed Stay'' then Some STATE_ALARM_ARMED_HOME
      else if status = ''Ready To Arm'' then Some STATE_ALARM_DISARMED
      else if endswith status '' Secs Remaining'' then Some STATE_ALARM_ARMING
      else None)"

definition reported_state :: "alarm_state option \<Rightarrow> alarm_state" where
  "reported_state state = (case state of None \<Rightarrow> STATE_UNAVAILABLE | Some s \<Rightarrow> s)"

text \<open>
  The part of \<open>async_update\<close> after the request. A status that is not a string
  equals none of the four texts and has no \<open>endswith\<close>.
\<close>

definition update_from_response ::
  "tuxedo \<Rightarrow> json option \<Rightarrow> event list \<Rightarrow> (error + unit) \<times> tuxedo \<times> event list" where
  "update_from_response self response evs =
     (if response_truthy response then
        (case subscript (the response) ''Status'' of
           Inl e \<Rightarrow> (Inl e, self, evs)
         | Inr (JStr status) \<Rightarrow>
             (Inr (),
              self\<lparr>self_attr_state := Some (reported_state (status_state status))\<rparr>,
              evs @ [Log INFO (''current alarm status: '' @ status) []])
         | Inr _ \<Rightarrow> (Inl (AttributeError ''endswith''), self, evs))
      else
        (Inr (),
         self\<lparr>self_attr_state := Some (reported_state None)\<rparr>,
         evs @ [Log ERROR ''unable to get alarm status'' []]))"

definition async_update ::
  "lib \<Rightarrow> (request \<Rightarrow> reply) \<Rightarrow> tuxedo \<Rightarrow> event list \<Rightarrow> (error + unit) \<times> tuxedo \<times> event list" where
  "async_update L net self evs =
     (case post_request L net self ''/GetSecurityStatus'' [(''operation'', ''get'')] evs of
        (Inl e, evs1) \<Rightarrow> (Inl e, self, evs1)
      | (Inr response, evs1) \<Rightarrow> update_from_response self response evs1)"

definition alarm_arm ::
  "lib \<Rightarrow> (request \<Rightarrow> reply) \<Rightarrow> tuxedo \<Rightarrow> string \<Rightarrow> pyval \<Rightarrow> event list
     \<Rightarrow> (error + unit) \<times> tuxedo \<times> event list" where
  "alarm_arm L net self arm_name code evs =
     (let arm_code = (if truthy code then code else self_code self) in
      if arm_code = PyNone then (Inr (), self, evs @ [Log WARNING ''arm code is missing'' []])
      else
        (case post_request L net self ''/AdvancedSecurity/ArmWithCode''
                [(''arming'', arm_name), (''pID'', ''1''), (''ucode'', py_str arm_code),
                 (''operation'', ''set'')] evs of
           (Inl e, evs1) \<Rightarrow> (Inl e, self, evs1)
         | (Inr response, evs1) \<Rightarrow>
             if response_truthy response then
               (Inr (), self,
                evs1 @ [Log INFO (''api_arm_request '' @ arm_name @ '' result: %s'') [response],
                        Sleep 2, ScheduleUpdate])
             else (Inr (), self, evs1)))"

definition async_alarm_arm_away ::
  "lib \<Rightarrow> (request \<Rightarrow> reply) \<Rightarrow> tuxedo \<Rightarrow> pyval \<Rightarrow> event list \<Rightarrow> (error + unit) \<times> tuxedo \<times> event list" where
  "async_alarm_arm_away L net self code evs = alarm_arm L net self ''AWAY'' code evs"

definition async_alarm_arm_home ::
  "lib \<Rightarrow> (request \<Rightarrow> reply) \<Rightarrow> tuxedo \<Rightarrow> pyval \<Rightarrow> event list \<Rightarrow> (error + unit) \<times> tuxedo \<times> event list" where
  "async_alarm_arm_home L net self code evs = alarm_arm L net self ''STAY'' code evs"

definition async_alarm_arm_night ::
  "lib \<Rightarrow> (request \<Rightarrow> reply) \<Rightarrow> tuxedo \<Rightarrow> pyval \<Rightarrow> event list \<Rightarrow> (error + unit) \<times> tuxedo \<times> event list" where
  "async_alarm_arm_night L net self code evs = alarm_arm L net self ''NIGHT'' code evs"

definition async_alarm_disarm ::
  "lib \<Rightarrow> (request \<Rightarrow> reply) \<Rightarrow> tuxedo \<Rightarrow> pyval \<Rightarrow> event list \<Rightarrow> (error + unit) \<times> tuxedo \<times> event list" where
  "async_alarm_disarm L net self code evs =
     (let disarm_code = (if truthy code then code else self_code self) in
      if disarm_code = PyNone then (Inr (), self, evs @ [Log WARNING ''disarm code is missing'' []])
      else
        (case post_request L net self ''/AdvancedSecurity/DisarmWithCode''
                [(''pID'', ''1''), (''ucode'', py_str disarm_code), (''operation'', ''set'')] evs of
           (Inl e, evs1) \<Rightarrow> (Inl e, self, evs1)
         | (Inr response, evs1) \<Rightarrow>
             if response_truthy response then
               (Inr (), self,
                evs1 @ [Log INFO ''api_disarm_request result: %s'' [response], Sleep 2, ScheduleUpdate])
             else (Inr (), self, evs1)))"

subsection \<open>Reading the trace\<close>

text \<open>The requests that were sent, and whether the controller slept or scheduled an update.\<close>

fun posted :: "event list \<Rightarrow> request list" where
  "posted [] = []"
| "posted (HttpPost r # evs) = r # posted evs"
| "posted (_ # evs) = posted evs"

text \<open>The request that \<open>_post_request\<close> builds for an endpoint and an encrypted blob.\<close>

definition request_for :: "tuxedo \<Rightarrow> string \<Rightarrow> string \<Rightarrow> request" where
  "request_for self endpoint encrypted_params =
     \<lparr>req_url = self_url self @ endpoint,
      req_headers = [(''authtoken'', self_key self), (''identity'', self_iv self)],
      req_data = [(''param'', encrypted_params)],
      req_verify = False\<rparr>"

text \<open>The code that an arm or disarm call uses: \<open>code if code else self._code\<close>.\<close>

definition resolved_code :: "tuxedo \<Rightarrow> pyval \<Rightarrow> pyval" where
  "resolved_code self code = (if truthy code then code else self_code self)"

fun is_wait :: "event \<Rightarrow> bool" where
  "is_wait (Sleep _) = True"
| "is_wait ScheduleUpdate = True"
| "is_wait _ = False"

subsection \<open>Conditions on the cipher material\<close>

text \<open>
  The key and IV lengths that \<open>AES.new\<close> accepts, hexadecimal text as
  \<open>a2b_hex\<close> accepts it, and what the model needs to know of the AES block
  transformation under a key: decryption undoes encryption, block by block.
\<close>

text \<open>The exceptions that are a \<open>ValueError\<close> in Python, by their class or a base class.\<close>

fun is_value_error :: "error \<Rightarrow> bool" where
  "is_value_error (BinasciiError _) = True"
| "is_value_error (ValueError _) = True"
| "is_value_error (JSONDecodeError _) = True"
| "is_value_error _ = False"

definition valid_material :: "cipher \<Rightarrow> bool" where
  "valid_material c =
     ((length (key_bin c) = 16 \<or> length (key_bin c) = 24 \<or> length (key_bin c) = 32) \<and>
      length (iv_bin c) = 16)"

definition hex_text :: "string \<Rightarrow> bool" where
  "hex_text s = (even (length s) \<and> list_all (\<lambda>c. hex_value c \<noteq> None) s)"

definition block_cipher_inverts :: "lib \<Rightarrow> byte list \<Rightarrow> bool" where
  "block_cipher_inverts L key =
     (\<forall>b. length b = 16 \<longrightarrow>
        aes_decrypt_block L key (aes_encrypt_block L key b) = b \<and>
        length (aes_encrypt_block L key b) = 16)"

subsection \<open>A concrete setting for evaluation\<close>

text \<open>
  A stand-in library: the block transformation is the exclusive or with the first
  16 bytes of the key (its own inverse), the random generator hands out zeros, the
  JSON parser is the one above. The properties below that depend on the block
  transformation are proved for every library whose decryption undoes its
  encryption; the stand-in only serves to run the model.
\<close>

definition xor_block :: "byte list \<Rightarrow> byte list \<Rightarrow> byte list" where
  "xor_block key block = xor_bytes block (take 16 key)"

definition demo_lib :: lib where
  "demo_lib =
     \<lparr>aes_encrypt_block = xor_block, aes_decrypt_block = xor_block,
      get_random_bytes = (\<lambda>n. replicate n 0), json_loads = json_loads_utf8\<rparr>"

definition demo_key :: string where
  "demo_key = ''000102030405060708090a0b0c0d0e0f101112131415161718191a1b1c1d1e1f''"

definition demo_iv :: string where
  "demo_iv = ''f0f1f2f3f4f5f6f7f8f9fafbfcfdfeff''"

definition demo_cipher :: cipher where
  "demo_cipher =
     \<lparr>key_bin = [0, 1, 2, 3, 4, 5, 6, 7, 8, 9, 10, 11, 12, 13, 14, 15, 16, 17, 18, 19, 20, 21, 22, 23,
                 24, 25, 26, 27, 28, 29, 30, 31],
      iv_bin = [240, 241, 242, 243, 244, 245, 246, 247, 248, 249, 250, 251, 252, 253, 254, 255]\<rparr>"

text \<open>A panel without a default code and one with the default code 1234.\<close>

definition demo_panel :: "pyval \<Rightarrow> tuxedo" where
  "demo_panel code =
     \<lparr>self_url = ''https://192.168.1.20/system_http_api/API_REV01'',
      self_key = demo_key, self_iv = demo_iv, self_code = code,
      self_cipher = demo_cipher, self_attr_state = None\<rparr>"

text \<open>
  Three peers: one that answers every request with status 500, one that cannot be
  reached, and one that answers with status 200 and a given encrypted result.
\<close>

definition net_500 :: "request \<Rightarrow> reply" where
  "net_500 req = Response 500 (Inl (JSONDecodeError ''Expecting value''))"

definition net_unreachable :: "request \<Rightarrow> reply" where
  "net_unreachable req = Raises (RequestException ''ConnectionError'')"

definition net_ok :: "string \<Rightarrow> request \<Rightarrow> reply" where
  "net_ok blob req = Response 200 (Inr (JObj [(''Result'', JStr blob)]))"

section \<open>Properties\<close>

subsection \<open>Status interpretation\<close>

lemma endswith_append: "endswith (p @ suffix) suffix"
  by (simp add: endswith_def)

lemma endswith_length: "endswith s suffix \<Longrightarrow> length suffix \<le> length s"
  by (simp add: endswith_def)

lemma status_state_arming:
  assumes "endswith s '' Secs Remaining''"
  shows "status_state s = Some STATE_ALARM_ARMING"
proof -
  have len: "15 \<le> length s"
    using endswith_length [OF assms] by simp
  have "s \<noteq> ''Armed Away''" "s \<noteq> ''Armed Instant''" "s \<noteq> ''Armed Stay''" "s \<noteq> ''Ready To Arm''"
    using len by fastforce+
  with assms show ?thesis
    by (simp add: status_state_def)
qed

lemma status_state_other:
  assumes "s \<noteq> ''Armed Away''" "s \<noteq> ''Armed Instant''" "s \<noteq> ''Armed Stay''" "s \<noteq> ''Ready To Arm''"
    and "\<not> endswith s '' Secs Remaining''"
  shows "status_state s = None"
  using assms by (simp add: status_state_def)

lemma update_from_status:
  assumes "map_of doc ''Status'' = Some (JStr s)"
  shows "update_from_response self (Some (JObj doc)) evs =
        (Inr (), self\<lparr>self_attr_state := Some (reported_state (status_state s))\<rparr>,
         evs @ [Log INFO (''current alarm status: '' @ s) []])"
proof -
  have "doc \<noteq> []" using assms by auto
  then show ?thesis using assms by (simp add: update_from_response_def)
qed

text \<open>
  Claim C2. Interpreting the status text is a total function into the six alarm
  states: \<open>Armed Away\<close> gives armed-away, \<open>Armed Instant\<close> armed-night,
  \<open>Armed Stay\<close> armed-home, \<open>Ready To Arm\<close> disarmed, every text that ends with
  \<open> Secs Remaining\<close> arming, and every other text (among them \<open>Entry Delay Active\<close> and
  \<open>Not Ready Fault\<close>) unavailable. Whatever string the answer carries under
  \<open>Status\<close>, the update returns normally, stores the interpreted state and logs the
  status text.
\<close>

theorem status_interpretation:
  "reported_state (status_state ''Armed Away'') = STATE_ALARM_ARMED_AWAY \<and>
   reported_state (status_state ''Armed Instant'') = STATE_ALARM_ARMED_NIGHT \<and>
   reported_state (status_state ''Armed Stay'') = STATE_ALARM_ARMED_HOME \<and>
   reported_state (status_state ''Ready To Arm'') = STATE_ALARM_DISARMED \<and>
   (\<forall>s. endswith s '' Secs Remaining'' \<longrightarrow> reported_state (status_state s) = STATE_ALARM_ARMING) \<and>
   (\<forall>s. s \<noteq> ''Armed Away'' \<and> s \<noteq> ''Armed Instant'' \<and> s \<noteq> ''Armed Stay'' \<and> s \<noteq> ''Ready To Arm'' \<and>
        \<not> endswith s '' Secs Remaining'' \<longrightarrow> reported_state (status_state s) = STATE_UNAVAILABLE) \<and>
   reported_state (status_state ''Entry Delay Active'') = STATE_UNAVAILABLE \<and>
   reported_state (status_state ''Not Ready Fault'') = STATE_UNAVAILABLE \<and>
   (\<forall>self doc s evs. map_of doc ''Status'' = Some (JStr s) \<longrightarrow>
      update_from_response self (Some (JObj doc)) evs =
        (Inr (), self\<lparr>self_attr_state := Some (reported_state (status_state s))\<rparr>,
         evs @ [Log INFO (''current alarm status: '' @ s) []]))"
proof (intro conjI allI impI)
  fix s assume "endswith s '' Secs Remaining''"
  then show "reported_state (status_state s) = STATE_ALARM_ARMING"
    by (simp add: status_state_arming reported_state_def)
next
  fix s
  assume "s \<noteq> ''Armed Away'' \<and> s \<noteq> ''Armed Instant'' \<and> s \<noteq> ''Armed Stay'' \<and> s \<noteq> ''Ready To Arm'' \<and>
        \<not> endswith s '' Secs Remaining''"
  then show "reported_state (status_state s) = STATE_UNAVAILABLE"
    by (simp add: status_state_other reported_state_def)
next
  fix self :: tuxedo and doc s evs
  assume "map_of doc ''Status'' = Some (JStr s)"
  then show "update_from_response self (Some (JObj doc)) evs =
        (Inr (), self\<lparr>self_attr_state := Some (reported_state (status_state s))\<rparr>,
         evs @ [Log INFO (''current alarm status: '' @ s) []])"
    by (rule update_from_status)
qed (simp_all add: status_state_def reported_state_def endswith_def)

theorem status_interpretation_witness:
  "endswith ''45 Secs Remaining'' '' Secs Remaining'' \<and>
   reported_state (status_state ''45 Secs Remaining'') = STATE_ALARM_ARMING \<and>
   \<not> endswith ''Alarm'' '' Secs Remaining'' \<and>
   reported_state (status_state ''Alarm'') = STATE_UNAVAILABLE \<and>
   map_of [(''Status'', JStr ''Armed Stay'')] ''Status'' = Some (JStr ''Armed Stay'') \<and>
   fst (update_from_response
     \<lparr>self_url = ''u'', self_key = ''00'', self_iv = ''01'',
      self_code = PyNone, self_cipher = \<lparr>key_bin = [0], iv_bin = [1]\<rparr>, self_attr_state = None\<rparr>
     (Some (JObj [(''Status'', JStr ''Armed Stay'')])) []) = Inr ()"
proof -
  have h1: "endswith ''45 Secs Remaining'' '' Secs Remaining''"
    by (simp add: endswith_def)
  have h2: "''Alarm'' \<noteq> ''Armed Away'' \<and> ''Alarm'' \<noteq> ''Armed Instant'' \<and> ''Alarm'' \<noteq> ''Armed Stay'' \<and>
      ''Alarm'' \<noteq> ''Ready To Arm'' \<and> \<not> endswith ''Alarm'' '' Secs Remaining''"
    by (simp add: endswith_def)
  have h3: "map_of [(''Status'', JStr ''Armed Stay'')] ''Status'' = Some (JStr ''Armed Stay'')"
    by simp
  have a: "\<forall>s. endswith s '' Secs Remaining'' \<longrightarrow> reported_state (status_state s) = STATE_ALARM_ARMING"
    using status_interpretation by (elim conjE)
  have b: "\<forall>s. s \<noteq> ''Armed Away'' \<and> s \<noteq> ''Armed Instant'' \<and> s \<noteq> ''Armed Stay'' \<and> s \<noteq> ''Ready To Arm'' \<and>
        \<not> endswith s '' Secs Remaining'' \<longrightarrow> reported_state (status_state s) = STATE_UNAVAILABLE"
    using status_interpretation by (elim conjE)
  have c: "\<forall>self doc s evs. map_of doc ''Status'' = Some (JStr s) \<longrightarrow>
      update_from_response self (Some (JObj doc)) evs =
        (Inr (), self\<lparr>self_attr_state := Some (reported_state (status_state s))\<rparr>,
         evs @ [Log INFO (''current alarm status: '' @ s) []])"
    using status_interpretation by (elim conjE)
  note c1 = a [rule_format, OF h1]
  note c2 = b [rule_format, OF h2]
  note c3 = c [rule_format, OF h3]
  show ?thesis
    using h1 h2 h3 c1 c2 by (simp add: c3)
qed

subsection \<open>Requests, answers and the trace\<close>

lemma posted_append [simp]: "posted (xs @ ys) = posted xs @ posted ys"
  by (induction xs rule: posted.induct) simp_all

lemma post_request_encrypt_error:
  assumes "encrypt_params L (self_cipher self) params = Inl e"
  shows "post_request L net self endpoint params evs = (Inl e, evs)"
  using assms by (simp add: post_request_def)

lemma post_request_raises:
  assumes "encrypt_params L (self_cipher self) params = Inr blob"
    and "net (request_for self endpoint blob) = Raises e"
  shows "post_request L net self endpoint params evs = (Inl e, evs @ [HttpPost (request_for self endpoint blob)])"
  using assms by (simp add: post_request_def request_for_def Let_def)

lemma post_request_not_200:
  assumes "encrypt_params L (self_cipher self) params = Inr blob"
    and "net (request_for self endpoint blob) = Response status_code body"
    and "status_code \<noteq> 200"
  shows "post_request L net self endpoint params evs =
           (Inr None, evs @ [HttpPost (request_for self endpoint blob),
                             Log ERROR (''endpoint '' @ endpoint @ '' returned a '' @ str_int status_code) []])"
  using assms by (simp add: post_request_def request_for_def Let_def)

lemma post_request_200:
  assumes "encrypt_params L (self_cipher self) params = Inr blob"
    and "net (request_for self endpoint blob) = Response 200 body"
  shows "\<exists>r. post_request L net self endpoint params evs = (r, evs @ [HttpPost (request_for self endpoint blob)])"
  using assms
  by (simp add: post_request_def request_for_def Let_def split: sum.split json.split)

text \<open>Every call sends at most one request and neither sleeps nor schedules an update.\<close>

lemma post_request_trace:
  assumes "post_request L net self endpoint params evs = (r, evs1)"
  shows "\<exists>new. evs1 = evs @ new \<and> filter is_wait new = [] \<and>
           posted new = (case encrypt_params L (self_cipher self) params of
                           Inl e \<Rightarrow> [] | Inr blob \<Rightarrow> [request_for self endpoint blob])"
proof (cases "encrypt_params L (self_cipher self) params")
  case (Inl e)
  then show ?thesis using assms by (simp add: post_request_encrypt_error)
next
  case (Inr blob)
  show ?thesis
  proof (cases "net (request_for self endpoint blob)")
    case (Raises e)
    have "post_request L net self endpoint params evs = (Inl e, evs @ [HttpPost (request_for self endpoint blob)])"
      using Inr Raises by (rule post_request_raises)
    with assms Inr show ?thesis by auto
  next
    case (Response status_code body)
    show ?thesis
    proof (cases "status_code = 200")
      case True
      have "\<exists>r. post_request L net self endpoint params evs = (r, evs @ [HttpPost (request_for self endpoint blob)])"
        using Inr Response True by (simp add: post_request_200)
      with assms Inr show ?thesis by auto
    next
      case False
      have "post_request L net self endpoint params evs =
           (Inr None, evs @ [HttpPost (request_for self endpoint blob),
                             Log ERROR (''endpoint '' @ endpoint @ '' returned a '' @ str_int status_code) []])"
        using Inr Response False by (rule post_request_not_200)
      with assms Inr show ?thesis by auto
    qed
  qed
qed

lemma post_request_code_irrelevant:
  "post_request L net (self\<lparr>self_code := d\<rparr>) endpoint params evs = post_request L net self endpoint params evs"
  by (simp add: post_request_def Let_def split: sum.split reply.split json.split)


lemma resolved_code_None:
  "resolved_code self code = PyNone \<longleftrightarrow> \<not> truthy code \<and> self_code self = PyNone"
  by (cases code) (auto simp: resolved_code_def)

lemma alarm_arm_missing:
  assumes "resolved_code self code = PyNone"
  shows "alarm_arm L net self arm_name code evs = (Inr (), self, evs @ [Log WARNING ''arm code is missing'' []])"
  using assms by (simp add: alarm_arm_def resolved_code_def)

lemma disarm_missing:
  assumes "resolved_code self code = PyNone"
  shows "async_alarm_disarm L net self code evs = (Inr (), self, evs @ [Log WARNING ''disarm code is missing'' []])"
  using assms by (simp add: async_alarm_disarm_def resolved_code_def)

text \<open>With a code, arming is the request followed by what the answer asks for.\<close>

lemma alarm_arm_resolved:
  assumes "resolved_code self code \<noteq> PyNone"
  shows "alarm_arm L net self arm_name code evs =
     (case post_request L net self ''/AdvancedSecurity/ArmWithCode''
             [(''arming'', arm_name), (''pID'', ''1''), (''ucode'', py_str (resolved_code self code)),
              (''operation'', ''set'')] evs of
        (Inl e, evs1) \<Rightarrow> (Inl e, self, evs1)
      | (Inr response, evs1) \<Rightarrow>
          if response_truthy response then
            (Inr (), self,
             evs1 @ [Log INFO (''api_arm_request '' @ arm_name @ '' result: %s'') [response],
                     Sleep 2, ScheduleUpdate])
          else (Inr (), self, evs1))"
  using assms by (simp add: alarm_arm_def resolved_code_def)

lemma disarm_resolved:
  assumes "resolved_code self code \<noteq> PyNone"
  shows "async_alarm_disarm L net self code evs =
     (case post_request L net self ''/AdvancedSecurity/DisarmWithCode''
             [(''pID'', ''1''), (''ucode'', py_str (resolved_code self code)), (''operation'', ''set'')] evs of
        (Inl e, evs1) \<Rightarrow> (Inl e, self, evs1)
      | (Inr response, evs1) \<Rightarrow>
          if response_truthy response then
            (Inr (), self,
             evs1 @ [Log INFO ''api_disarm_request result: %s'' [response], Sleep 2, ScheduleUpdate])
          else (Inr (), self, evs1))"
  using assms by (simp add: async_alarm_disarm_def resolved_code_def)

lemma resolved_code_update [simp]:
  "truthy code \<Longrightarrow> resolved_code (self\<lparr>self_code := d\<rparr>) code = resolved_code self code"
  by (simp add: resolved_code_def)

lemma resolved_code_truthy: "truthy code \<Longrightarrow> resolved_code self code = code \<and> code \<noteq> PyNone"
  by (cases code) (simp_all add: resolved_code_def)

lemma alarm_arm_default_irrelevant:
  assumes "truthy code"
  shows "alarm_arm L net (self\<lparr>self_code := d\<rparr>) arm_name code evs =
         (fst (alarm_arm L net self arm_name code evs), self\<lparr>self_code := d\<rparr>,
          snd (snd (alarm_arm L net self arm_name code evs)))"
proof -
  have r: "resolved_code self code \<noteq> PyNone" "resolved_code (self\<lparr>self_code := d\<rparr>) code \<noteq> PyNone"
    using assms resolved_code_truthy by simp_all
  show ?thesis
    by (simp add: alarm_arm_resolved [OF r(1)] alarm_arm_resolved [OF r(2)] assms
          post_request_code_irrelevant split: prod.split sum.split)
qed

lemma disarm_default_irrelevant:
  assumes "truthy code"
  shows "async_alarm_disarm L net (self\<lparr>self_code := d\<rparr>) code evs =
         (fst (async_alarm_disarm L net self code evs), self\<lparr>self_code := d\<rparr>,
          snd (snd (async_alarm_disarm L net self code evs)))"
proof -
  have r: "resolved_code self code \<noteq> PyNone" "resolved_code (self\<lparr>self_code := d\<rparr>) code \<noteq> PyNone"
    using assms resolved_code_truthy by simp_all
  show ?thesis
    by (simp add: disarm_resolved [OF r(1)] disarm_resolved [OF r(2)] assms
          post_request_code_irrelevant split: prod.split sum.split)
qed

lemma alarm_arm_posted:
  assumes "resolved_code self code \<noteq> PyNone"
    and "encrypt_params L (self_cipher self)
           [(''arming'', arm_name), (''pID'', ''1''), (''ucode'', py_str (resolved_code self code)),
            (''operation'', ''set'')] = Inr blob"
  shows "posted (snd (snd (alarm_arm L net self arm_name code evs))) =
           posted evs @ [request_for self ''/AdvancedSecurity/ArmWithCode'' blob]"
proof -
  obtain r evs1 where p: "post_request L net self ''/AdvancedSecurity/ArmWithCode''
      [(''arming'', arm_name), (''pID'', ''1''), (''ucode'', py_str (resolved_code self code)),
       (''operation'', ''set'')] evs = (r, evs1)"
    by (cases "post_request L net self ''/AdvancedSecurity/ArmWithCode''
      [(''arming'', arm_name), (''pID'', ''1''), (''ucode'', py_str (resolved_code self code)),
       (''operation'', ''set'')] evs") simp
  from post_request_trace [OF p] assms(2)
  obtain new where new: "evs1 = evs @ new"
      "posted new = [request_for self ''/AdvancedSecurity/ArmWithCode'' blob]"
    by auto
  show ?thesis
    using p new by (cases r) (simp_all add: alarm_arm_resolved [OF assms(1)])
qed

lemma disarm_posted:
  assumes "resolved_code self code \<noteq> PyNone"
    and "encrypt_params L (self_cipher self)
           [(''pID'', ''1''), (''ucode'', py_str (resolved_code self code)), (''operation'', ''set'')] = Inr blob"
  shows "posted (snd (snd (async_alarm_disarm L net self code evs))) =
           posted evs @ [request_for self ''/AdvancedSecurity/DisarmWithCode'' blob]"
proof -
  obtain r evs1 where p: "post_request L net self ''/AdvancedSecurity/DisarmWithCode''
      [(''pID'', ''1''), (''ucode'', py_str (resolved_code self code)), (''operation'', ''set'')] evs = (r, evs1)"
    by (cases "post_request L net self ''/AdvancedSecurity/DisarmWithCode''
      [(''pID'', ''1''), (''ucode'', py_str (resolved_code self code)), (''operation'', ''set'')] evs") simp
  from post_request_trace [OF p] assms(2)
  obtain new where new: "evs1 = evs @ new"
      "posted new = [request_for self ''/AdvancedSecurity/DisarmWithCode'' blob]"
    by auto
  show ?thesis
    using p new by (cases r) (simp_all add: disarm_resolved [OF assms(1)])
qed

subsection \<open>Arming and disarming without a code\<close>

text \<open>
  Claim C3, as amended. When the call brings no truthy code and no default code is
  configured, arming and disarming stop before any request is sent: the call logs the
  warning that the code is missing and returns normally, with the same value as every
  other call that raises nothing, and the panel object is unchanged. When the call
  brings a truthy code, that code is the one used: the call is the request whose
  \<open>ucode\<close> is \<open>str(code)\<close> followed by the handling of its answer, the one request
  it sends carries the encryption of the parameter set with that \<open>ucode\<close>, the result
  and the trace do not depend on the default code, and the default code is still in
  place afterwards.
\<close>

theorem missing_code_stays_local:
  "(\<not> truthy code \<and> self_code self = PyNone \<longrightarrow>
      alarm_arm L net self arm_name code evs =
        (Inr (), self, evs @ [Log WARNING ''arm code is missing'' []]) \<and>
      async_alarm_disarm L net self code evs =
        (Inr (), self, evs @ [Log WARNING ''disarm code is missing'' []]) \<and>
      posted (snd (snd (alarm_arm L net self arm_name code evs))) = posted evs \<and>
      posted (snd (snd (async_alarm_disarm L net self code evs))) = posted evs) \<and>
   (truthy code \<longrightarrow>
      resolved_code self code = code \<and>
      alarm_arm L net (self\<lparr>self_code := d\<rparr>) arm_name code evs =
        (fst (alarm_arm L net self arm_name code evs), self\<lparr>self_code := d\<rparr>,
         snd (snd (alarm_arm L net self arm_name code evs))) \<and>
      async_alarm_disarm L net (self\<lparr>self_code := d\<rparr>) code evs =
        (fst (async_alarm_disarm L net self code evs), self\<lparr>self_code := d\<rparr>,
         snd (snd (async_alarm_disarm L net self code evs))) \<and>
      alarm_arm L net self arm_name code evs =
        (case post_request L net self ''/AdvancedSecurity/ArmWithCode''
                [(''arming'', arm_name), (''pID'', ''1''), (''ucode'', py_str code),
                 (''operation'', ''set'')] evs of
           (Inl e, evs1) \<Rightarrow> (Inl e, self, evs1)
         | (Inr response, evs1) \<Rightarrow>
             if response_truthy response then
               (Inr (), self,
                evs1 @ [Log INFO (''api_arm_request '' @ arm_name @ '' result: %s'') [response],
                        Sleep 2, ScheduleUpdate])
             else (Inr (), self, evs1)) \<and>
      async_alarm_disarm L net self code evs =
        (case post_request L net self ''/AdvancedSecurity/DisarmWithCode''
                [(''pID'', ''1''), (''ucode'', py_str code), (''operation'', ''set'')] evs of
           (Inl e, evs1) \<Rightarrow> (Inl e, self, evs1)
         | (Inr response, evs1) \<Rightarrow>
             if response_truthy response then
               (Inr (), self,
                evs1 @ [Log INFO ''api_disarm_request result: %s'' [response], Sleep 2, ScheduleUpdate])
             else (Inr (), self, evs1)) \<and>
      (encrypt_params L (self_cipher self)
         [(''arming'', arm_name), (''pID'', ''1''), (''ucode'', py_str code), (''operation'', ''set'')] =
         Inr blob \<longrightarrow>
       posted (snd (snd (alarm_arm L net self arm_name code evs))) =
         posted evs @ [request_for self ''/AdvancedSecurity/ArmWithCode'' blob]) \<and>
      (encrypt_params L (self_cipher self)
         [(''pID'', ''1''), (''ucode'', py_str code), (''operation'', ''set'')] = Inr blob' \<longrightarrow>
       posted (snd (snd (async_alarm_disarm L net self code evs))) =
         posted evs @ [request_for self ''/AdvancedSecurity/DisarmWithCode'' blob']))"
proof (intro conjI impI)
  assume a: "\<not> truthy code \<and> self_code self = PyNone"
  then have r: "resolved_code self code = PyNone"
    by (simp add: resolved_code_None)
  show "alarm_arm L net self arm_name code evs =
        (Inr (), self, evs @ [Log WARNING ''arm code is missing'' []])"
    by (rule alarm_arm_missing [OF r])
  show "async_alarm_disarm L net self code evs =
        (Inr (), self, evs @ [Log WARNING ''disarm code is missing'' []])"
    by (rule disarm_missing [OF r])
  show "posted (snd (snd (alarm_arm L net self arm_name code evs))) = posted evs"
    by (simp add: alarm_arm_missing [OF r])
  show "posted (snd (snd (async_alarm_disarm L net self code evs))) = posted evs"
    by (simp add: disarm_missing [OF r])
next
  assume t: "truthy code"
  have rc: "resolved_code self code = code" and rn: "resolved_code self code \<noteq> PyNone"
    using resolved_code_truthy [OF t, of self] by simp_all
  show "resolved_code self code = code"
    by (rule rc)
  show "alarm_arm L net (self\<lparr>self_code := d\<rparr>) arm_name code evs =
        (fst (alarm_arm L net self arm_name code evs), self\<lparr>self_code := d\<rparr>,
         snd (snd (alarm_arm L net self arm_name code evs)))"
    by (rule alarm_arm_default_irrelevant [OF t])
  show "async_alarm_disarm L net (self\<lparr>self_code := d\<rparr>) code evs =
        (fst (async_alarm_disarm L net self code evs), self\<lparr>self_code := d\<rparr>,
         snd (snd (async_alarm_disarm L net self code evs)))"
    by (rule disarm_default_irrelevant [OF t])
  show "alarm_arm L net self arm_name code evs =
        (case post_request L net self ''/AdvancedSecurity/ArmWithCode''
                [(''arming'', arm_name), (''pID'', ''1''), (''ucode'', py_str code),
                 (''operation'', ''set'')] evs of
           (Inl e, evs1) \<Rightarrow> (Inl e, self, evs1)
         | (Inr response, evs1) \<Rightarrow>
             if response_truthy response then
               (Inr (), self,
                evs1 @ [Log INFO (''api_arm_request '' @ arm_name @ '' result: %s'') [response],
                        Sleep 2, ScheduleUpdate])
             else (Inr (), self, evs1))"
    using alarm_arm_resolved [OF rn, of L net arm_name evs] by (simp only: rc)
  show "async_alarm_disarm L net self code evs =
        (case post_request L net self ''/AdvancedSecurity/DisarmWithCode''
                [(''pID'', ''1''), (''ucode'', py_str code), (''operation'', ''set'')] evs of
           (Inl e, evs1) \<Rightarrow> (Inl e, self, evs1)
         | (Inr response, evs1) \<Rightarrow>
             if response_truthy response then
               (Inr (), self,
                evs1 @ [Log INFO ''api_disarm_request result: %s'' [response], Sleep 2, ScheduleUpdate])
             else (Inr (), self, evs1))"
    using disarm_resolved [OF rn, of L net evs] by (simp only: rc)
  show "posted (snd (snd (alarm_arm L net self arm_name code evs))) =
         posted evs @ [request_for self ''/AdvancedSecurity/ArmWithCode'' blob]"
    if "encrypt_params L (self_cipher self)
         [(''arming'', arm_name), (''pID'', ''1''), (''ucode'', py_str code), (''operation'', ''set'')] =
         Inr blob"
    using alarm_arm_posted [OF rn, of L arm_name blob net evs] that by (simp only: rc)
  show "posted (snd (snd (async_alarm_disarm L net self code evs))) =
         posted evs @ [request_for self ''/AdvancedSecurity/DisarmWithCode'' blob']"
    if "encrypt_params L (self_cipher self)
         [(''pID'', ''1''), (''ucode'', py_str code), (''operation'', ''set'')] = Inr blob'"
    using disarm_posted [OF rn, of L blob' net evs] that by (simp only: rc)
qed

theorem missing_code_stays_local_witness:
  "\<not> truthy (PyStr '''') \<and> self_code (demo_panel PyNone) = PyNone \<and>
   alarm_arm demo_lib net_unreachable (demo_panel PyNone) ''AWAY'' (PyStr '''') [] =
     (Inr (), demo_panel PyNone, [] @ [Log WARNING ''arm code is missing'' []]) \<and>
   posted (snd (snd (alarm_arm demo_lib net_unreachable (demo_panel PyNone) ''AWAY'' (PyStr '''') []))) =
     posted [] \<and>
   truthy (PyStr ''4321'') \<and>
   encrypt_params demo_lib (self_cipher (demo_panel (PyInt 1234)))
     [(''arming'', ''AWAY''), (''pID'', ''1''), (''ucode'', py_str (PyStr ''4321'')), (''operation'', ''set'')] =
     Inr (''kYKdmZ6XzbGnsanWgLm0zaCl6vn19q6Lm4uR7KrbyqfSxZyTnp2V//b2neGg0MKu'' @ [CHR 0x0A]) \<and>
   posted (snd (snd (alarm_arm demo_lib net_500 (demo_panel (PyInt 1234)) ''AWAY'' (PyStr ''4321'') []))) =
     posted [] @ [request_for (demo_panel (PyInt 1234)) ''/AdvancedSecurity/ArmWithCode''
                    (''kYKdmZ6XzbGnsanWgLm0zaCl6vn19q6Lm4uR7KrbyqfSxZyTnp2V//b2neGg0MKu'' @ [CHR 0x0A])]"
proof -
  have h: "\<not> truthy (PyStr '''') \<and> self_code (demo_panel PyNone) = PyNone"
    by (simp add: demo_panel_def)
  have t: "truthy (PyStr ''4321'')"
    by simp
  have e: "encrypt_params demo_lib (self_cipher (demo_panel (PyInt 1234)))
     [(''arming'', ''AWAY''), (''pID'', ''1''), (''ucode'', py_str (PyStr ''4321'')), (''operation'', ''set'')] =
     Inr (''kYKdmZ6XzbGnsanWgLm0zaCl6vn19q6Lm4uR7KrbyqfSxZyTnp2V//b2neGg0MKu'' @ [CHR 0x0A])"
    by code_simp
  note c1 = missing_code_stays_local
    [where code = "PyStr ''''" and self = "demo_panel PyNone" and L = demo_lib
       and net = net_unreachable and arm_name = "''AWAY''" and evs = "[]",
     THEN conjunct1, THEN mp, OF h]
  note c2 = missing_code_stays_local
    [where code = "PyStr ''4321''" and self = "demo_panel (PyInt 1234)" and L = demo_lib
       and net = net_500 and arm_name = "''AWAY''" and evs = "[]",
     THEN conjunct2, THEN mp, OF t, THEN conjunct2, THEN conjunct2, THEN conjunct2, THEN conjunct2,
     THEN conjunct2, THEN conjunct1, THEN mp, OF e]
  show ?thesis
    using h t e c1 c2 by (intro conjI) (elim conjE, assumption)+
qed

text \<open>
  The claim as stated fails: without any code the call does not fail with an error
  value. It returns normally, exactly as an arm command that the panel acknowledged.
\<close>

theorem missing_code_counterexample:
  "fst (alarm_arm demo_lib net_unreachable (demo_panel PyNone) ''AWAY'' PyNone []) = Inr () \<and>
   fst (alarm_arm demo_lib (net_ok (''i9KilYOFnITSytDSv7vSjZvDsIaXkIqTytPKyaOmzJI='' @ [CHR 0x0A]))
          (demo_panel (PyInt 1234)) ''AWAY'' PyNone []) = Inr ()"
  by code_simp

subsection \<open>A status other than 200\<close>

text \<open>
  Claim C5, as amended. When a code resolves and the panel answers an arm request
  with a status other than 200, the request was sent exactly once, the transport
  logs the endpoint and the status at error level and returns \<open>None\<close>, and the
  arm operation returns normally: it raises nothing and hands no error to its
  caller, the log record being the only trace of the failure.
\<close>

theorem arm_http_error_logged:
  "resolved_code self code \<noteq> PyNone \<and>
   encrypt_params L (self_cipher self)
     [(''arming'', arm_name), (''pID'', ''1''), (''ucode'', py_str (resolved_code self code)),
      (''operation'', ''set'')] = Inr blob \<and>
   net (request_for self ''/AdvancedSecurity/ArmWithCode'' blob) = Response status_code body \<and>
   status_code \<noteq> 200 \<longrightarrow>
   post_request L net self ''/AdvancedSecurity/ArmWithCode''
     [(''arming'', arm_name), (''pID'', ''1''), (''ucode'', py_str (resolved_code self code)),
      (''operation'', ''set'')] evs =
     (Inr None,
      evs @ [HttpPost (request_for self ''/AdvancedSecurity/ArmWithCode'' blob),
             Log ERROR (''endpoint '' @ ''/AdvancedSecurity/ArmWithCode'' @ '' returned a '' @ str_int status_code) []]) \<and>
   alarm_arm L net self arm_name code evs =
     (Inr (), self,
      evs @ [HttpPost (request_for self ''/AdvancedSecurity/ArmWithCode'' blob),
             Log ERROR (''endpoint '' @ ''/AdvancedSecurity/ArmWithCode'' @ '' returned a '' @ str_int status_code) []])"
proof (intro impI, elim conjE)
  assume r: "resolved_code self code \<noteq> PyNone"
    and e: "encrypt_params L (self_cipher self)
     [(''arming'', arm_name), (''pID'', ''1''), (''ucode'', py_str (resolved_code self code)),
      (''operation'', ''set'')] = Inr blob"
    and n: "net (request_for self ''/AdvancedSecurity/ArmWithCode'' blob) = Response status_code body"
    and s: "status_code \<noteq> 200"
  note p = post_request_not_200 [where net = net, OF e n s, of evs]
  show "post_request L net self ''/AdvancedSecurity/ArmWithCode''
     [(''arming'', arm_name), (''pID'', ''1''), (''ucode'', py_str (resolved_code self code)),
      (''operation'', ''set'')] evs =
     (Inr None,
      evs @ [HttpPost (request_for self ''/AdvancedSecurity/ArmWithCode'' blob),
             Log ERROR (''endpoint '' @ ''/AdvancedSecurity/ArmWithCode'' @ '' returned a '' @ str_int status_code) []]) \<and>
   alarm_arm L net self arm_name code evs =
     (Inr (), self,
      evs @ [HttpPost (request_for self ''/AdvancedSecurity/ArmWithCode'' blob),
             Log ERROR (''endpoint '' @ ''/AdvancedSecurity/ArmWithCode'' @ '' returned a '' @ str_int status_code) []])"
    by (simp only: alarm_arm_resolved [OF r] p) simp
qed

theorem arm_http_error_logged_witness:
  "resolved_code (demo_panel (PyInt 1234)) PyNone \<noteq> PyNone \<and>
   encrypt_params demo_lib (self_cipher (demo_panel (PyInt 1234)))
     [(''arming'', ''AWAY''), (''pID'', ''1''),
      (''ucode'', py_str (resolved_code (demo_panel (PyInt 1234)) PyNone)), (''operation'', ''set'')] =
     Inr (''kYKdmZ6XzbGnsanWgLm0zaCl6vn19q6LnoqQ6arbyqfSxZyTnp2V//P3nOSg0MKu'' @ [CHR 0x0A]) \<and>
   net_500 (request_for (demo_panel (PyInt 1234)) ''/AdvancedSecurity/ArmWithCode''
      (''kYKdmZ6XzbGnsanWgLm0zaCl6vn19q6LnoqQ6arbyqfSxZyTnp2V//P3nOSg0MKu'' @ [CHR 0x0A])) =
     Response 500 (Inl (JSONDecodeError ''Expecting value'')) \<and>
   (500 :: int) \<noteq> 200 \<and>
   alarm_arm demo_lib net_500 (demo_panel (PyInt 1234)) ''AWAY'' PyNone [] =
     (Inr (), demo_panel (PyInt 1234),
      [] @ [HttpPost (request_for (demo_panel (PyInt 1234)) ''/AdvancedSecurity/ArmWithCode''
              (''kYKdmZ6XzbGnsanWgLm0zaCl6vn19q6LnoqQ6arbyqfSxZyTnp2V//P3nOSg0MKu'' @ [CHR 0x0A])),
            Log ERROR (''endpoint '' @ ''/AdvancedSecurity/ArmWithCode'' @ '' returned a '' @ str_int 500) []])"
proof -
  have h: "resolved_code (demo_panel (PyInt 1234)) PyNone \<noteq> PyNone \<and>
   encrypt_params demo_lib (self_cipher (demo_panel (PyInt 1234)))
     [(''arming'', ''AWAY''), (''pID'', ''1''),
      (''ucode'', py_str (resolved_code (demo_panel (PyInt 1234)) PyNone)), (''operation'', ''set'')] =
     Inr (''kYKdmZ6XzbGnsanWgLm0zaCl6vn19q6LnoqQ6arbyqfSxZyTnp2V//P3nOSg0MKu'' @ [CHR 0x0A]) \<and>
   net_500 (request_for (demo_panel (PyInt 1234)) ''/AdvancedSecurity/ArmWithCode''
      (''kYKdmZ6XzbGnsanWgLm0zaCl6vn19q6LnoqQ6arbyqfSxZyTnp2V//P3nOSg0MKu'' @ [CHR 0x0A])) =
     Response 500 (Inl (JSONDecodeError ''Expecting value'')) \<and>
   (500 :: int) \<noteq> 200"
    by code_simp
  note c = arm_http_error_logged [where net = net_500 and evs = "[]", THEN mp, OF h, THEN conjunct2]
  show ?thesis
    using h c by (intro conjI) (elim conjE, assumption)+
qed

text \<open>
  The claim as stated fails at status 500: the transport returns \<open>None\<close> and the arm
  operation returns normally, so neither hands an error carrying the status to its
  caller.
\<close>

theorem arm_http_error_counterexample:
  "fst (post_request demo_lib net_500 (demo_panel (PyInt 1234)) ''/AdvancedSecurity/ArmWithCode''
          [(''arming'', ''AWAY''), (''pID'', ''1''), (''ucode'', ''1234''), (''operation'', ''set'')] []) =
     Inr None \<and>
   fst (alarm_arm demo_lib net_500 (demo_panel (PyInt 1234)) ''AWAY'' PyNone []) = Inr ()"
  by code_simp

subsection \<open>The settle delay\<close>

text \<open>
  Claim C9. After an arm or disarm command whose request returned a truthy answer,
  the controller logs the result, sleeps for exactly 2 and only then schedules the
  update of its state: these are the last three events of the call. In every other
  case the call neither sleeps nor schedules an update.
\<close>

theorem settle_delay_after_success:
  "(resolved_code self code \<noteq> PyNone \<and>
    post_request L net self ''/AdvancedSecurity/ArmWithCode''
      [(''arming'', arm_name), (''pID'', ''1''), (''ucode'', py_str (resolved_code self code)),
       (''operation'', ''set'')] evs = (Inr response, evs1) \<and>
    response_truthy response \<longrightarrow>
      alarm_arm L net self arm_name code evs =
        (Inr (), self,
         evs1 @ [Log INFO (''api_arm_request '' @ arm_name @ '' result: %s'') [response],
                 Sleep 2, ScheduleUpdate]) \<and>
      filter is_wait (snd (snd (alarm_arm L net self arm_name code evs))) =
        filter is_wait evs @ [Sleep 2, ScheduleUpdate]) \<and>
   (resolved_code self code \<noteq> PyNone \<and>
    post_request L net self ''/AdvancedSecurity/DisarmWithCode''
      [(''pID'', ''1''), (''ucode'', py_str (resolved_code self code)), (''operation'', ''set'')] evs =
      (Inr response, evs1) \<and>
    response_truthy response \<longrightarrow>
      async_alarm_disarm L net self code evs =
        (Inr (), self,
         evs1 @ [Log INFO ''api_disarm_request result: %s'' [response], Sleep 2, ScheduleUpdate]) \<and>
      filter is_wait (snd (snd (async_alarm_disarm L net self code evs))) =
        filter is_wait evs @ [Sleep 2, ScheduleUpdate]) \<and>
   (resolved_code self code = PyNone \<or>
    (case fst (post_request L net self ''/AdvancedSecurity/ArmWithCode''
                 [(''arming'', arm_name), (''pID'', ''1''), (''ucode'', py_str (resolved_code self code)),
                  (''operation'', ''set'')] evs) of
       Inl e \<Rightarrow> True | Inr answer \<Rightarrow> \<not> response_truthy answer) \<longrightarrow>
      filter is_wait (snd (snd (alarm_arm L net self arm_name code evs))) = filter is_wait evs) \<and>
   (resolved_code self code = PyNone \<or>
    (case fst (post_request L net self ''/AdvancedSecurity/DisarmWithCode''
                 [(''pID'', ''1''), (''ucode'', py_str (resolved_code self code)), (''operation'', ''set'')] evs) of
       Inl e \<Rightarrow> True | Inr answer \<Rightarrow> \<not> response_truthy answer) \<longrightarrow>
      filter is_wait (snd (snd (async_alarm_disarm L net self code evs))) = filter is_wait evs)"
proof (intro conjI impI)
  assume a: "resolved_code self code \<noteq> PyNone \<and>
    post_request L net self ''/AdvancedSecurity/ArmWithCode''
      [(''arming'', arm_name), (''pID'', ''1''), (''ucode'', py_str (resolved_code self code)),
       (''operation'', ''set'')] evs = (Inr response, evs1) \<and>
    response_truthy response"
  then have r: "resolved_code self code \<noteq> PyNone" by simp
  from a obtain new where new: "evs1 = evs @ new" "filter is_wait new = []"
    using post_request_trace by blast
  show "alarm_arm L net self arm_name code evs =
        (Inr (), self,
         evs1 @ [Log INFO (''api_arm_request '' @ arm_name @ '' result: %s'') [response],
                 Sleep 2, ScheduleUpdate])"
    using a by (simp add: alarm_arm_resolved [OF r])
  show "filter is_wait (snd (snd (alarm_arm L net self arm_name code evs))) =
        filter is_wait evs @ [Sleep 2, ScheduleUpdate]"
    using a new by (simp add: alarm_arm_resolved [OF r])
next
  assume a: "resolved_code self code \<noteq> PyNone \<and>
    post_request L net self ''/AdvancedSecurity/DisarmWithCode''
      [(''pID'', ''1''), (''ucode'', py_str (resolved_code self code)), (''operation'', ''set'')] evs =
      (Inr response, evs1) \<and>
    response_truthy response"
  then have r: "resolved_code self code \<noteq> PyNone" by simp
  from a obtain new where new: "evs1 = evs @ new" "filter is_wait new = []"
    using post_request_trace by blast
  show "async_alarm_disarm L net self code evs =
        (Inr (), self,
         evs1 @ [Log INFO ''api_disarm_request result: %s'' [response], Sleep 2, ScheduleUpdate])"
    using a by (simp add: disarm_resolved [OF r])
  show "filter is_wait (snd (snd (async_alarm_disarm L net self code evs))) =
        filter is_wait evs @ [Sleep 2, ScheduleUpdate]"
    using a new by (simp add: disarm_resolved [OF r])
next
  assume a: "resolved_code self code = PyNone \<or>
    (case fst (post_request L net self ''/AdvancedSecurity/ArmWithCode''
                 [(''arming'', arm_name), (''pID'', ''1''), (''ucode'', py_str (resolved_code self code)),
                  (''operation'', ''set'')] evs) of
       Inl e \<Rightarrow> True | Inr answer \<Rightarrow> \<not> response_truthy answer)"
  show "filter is_wait (snd (snd (alarm_arm L net self arm_name code evs))) = filter is_wait evs"
  proof (cases "resolved_code self code = PyNone")
    case True
    then show ?thesis by (simp add: alarm_arm_missing)
  next
    case False
    obtain r evs1 where p: "post_request L net self ''/AdvancedSecurity/ArmWithCode''
      [(''arming'', arm_name), (''pID'', ''1''), (''ucode'', py_str (resolved_code self code)),
       (''operation'', ''set'')] evs = (r, evs1)"
      by (cases "post_request L net self ''/AdvancedSecurity/ArmWithCode''
      [(''arming'', arm_name), (''pID'', ''1''), (''ucode'', py_str (resolved_code self code)),
       (''operation'', ''set'')] evs") simp
    from p obtain new where new: "evs1 = evs @ new" "filter is_wait new = []"
      using post_request_trace by blast
    show ?thesis
      using a False p new by (cases r) (simp_all add: alarm_arm_resolved [OF False])
  qed
next
  assume a: "resolved_code self code = PyNone \<or>
    (case fst (post_request L net self ''/AdvancedSecurity/DisarmWithCode''
                 [(''pID'', ''1''), (''ucode'', py_str (resolved_code self code)), (''operation'', ''set'')] evs) of
       Inl e \<Rightarrow> True | Inr answer \<Rightarrow> \<not> response_truthy answer)"
  show "filter is_wait (snd (snd (async_alarm_disarm L net self code evs))) = filter is_wait evs"
  proof (cases "resolved_code self code = PyNone")
    case True
    then show ?thesis by (simp add: disarm_missing)
  next
    case False
    obtain r evs1 where p: "post_request L net self ''/AdvancedSecurity/DisarmWithCode''
      [(''pID'', ''1''), (''ucode'', py_str (resolved_code self code)), (''operation'', ''set'')] evs = (r, evs1)"
      by (cases "post_request L net self ''/AdvancedSecurity/DisarmWithCode''
      [(''pID'', ''1''), (''ucode'', py_str (resolved_code self code)), (''operation'', ''set'')] evs") simp
    from p obtain new where new: "evs1 = evs @ new" "filter is_wait new = []"
      using post_request_trace by blast
    show ?thesis
      using a False p new by (cases r) (simp_all add: disarm_resolved [OF False])
  qed
qed

theorem settle_delay_after_success_witness:
  "resolved_code (demo_panel (PyInt 1234)) (PyStr ''4321'') \<noteq> PyNone \<and>
   post_request demo_lib (net_ok (''i9KilYOFnITSytDSv7vSjZvDsIaXkIqTytPKyaOmzJI='' @ [CHR 0x0A]))
     (demo_panel (PyInt 1234)) ''/AdvancedSecurity/ArmWithCode''
     [(''arming'', ''AWAY''), (''pID'', ''1''),
      (''ucode'', py_str (resolved_code (demo_panel (PyInt 1234)) (PyStr ''4321''))),
      (''operation'', ''set'')] [] =
     (Inr (Some (JObj [(''Result'', JStr ''OK'')])),
      [HttpPost (request_for (demo_panel (PyInt 1234)) ''/AdvancedSecurity/ArmWithCode''
         (''kYKdmZ6XzbGnsanWgLm0zaCl6vn19q6Lm4uR7KrbyqfSxZyTnp2V//b2neGg0MKu'' @ [CHR 0x0A]))]) \<and>
   response_truthy (Some (JObj [(''Result'', JStr ''OK'')])) \<and>
   alarm_arm demo_lib (net_ok (''i9KilYOFnITSytDSv7vSjZvDsIaXkIqTytPKyaOmzJI='' @ [CHR 0x0A]))
     (demo_panel (PyInt 1234)) ''AWAY'' (PyStr ''4321'') [] =
     (Inr (), demo_panel (PyInt 1234),
      [HttpPost (request_for (demo_panel (PyInt 1234)) ''/AdvancedSecurity/ArmWithCode''
         (''kYKdmZ6XzbGnsanWgLm0zaCl6vn19q6Lm4uR7KrbyqfSxZyTnp2V//b2neGg0MKu'' @ [CHR 0x0A]))] @
      [Log INFO (''api_arm_request '' @ ''AWAY'' @ '' result: %s'') [Some (JObj [(''Result'', JStr ''OK'')])],
       Sleep 2, ScheduleUpdate]) \<and>
   resolved_code (demo_panel PyNone) PyNone = PyNone \<and>
   filter is_wait (snd (snd (async_alarm_disarm demo_lib net_500 (demo_panel PyNone) PyNone []))) =
     filter is_wait []"
proof -
  have h: "resolved_code (demo_panel (PyInt 1234)) (PyStr ''4321'') \<noteq> PyNone \<and>
   post_request demo_lib (net_ok (''i9KilYOFnITSytDSv7vSjZvDsIaXkIqTytPKyaOmzJI='' @ [CHR 0x0A]))
     (demo_panel (PyInt 1234)) ''/AdvancedSecurity/ArmWithCode''
     [(''arming'', ''AWAY''), (''pID'', ''1''),
      (''ucode'', py_str (resolved_code (demo_panel (PyInt 1234)) (PyStr ''4321''))),
      (''operation'', ''set'')] [] =
     (Inr (Some (JObj [(''Result'', JStr ''OK'')])),
      [HttpPost (request_for (demo_panel (PyInt 1234)) ''/AdvancedSecurity/ArmWithCode''
         (''kYKdmZ6XzbGnsanWgLm0zaCl6vn19q6Lm4uR7KrbyqfSxZyTnp2V//b2neGg0MKu'' @ [CHR 0x0A]))]) \<and>
   response_truthy (Some (JObj [(''Result'', JStr ''OK'')]))"
    by code_simp
  have g: "resolved_code (demo_panel PyNone) PyNone = PyNone"
    by (simp add: resolved_code_def demo_panel_def)
  note c1 = settle_delay_after_success
    [where L = demo_lib and self = "demo_panel (PyInt 1234)" and code = "PyStr ''4321''"
       and arm_name = "''AWAY''" and evs = "[]",
     THEN conjunct1, THEN mp, OF h, THEN conjunct1]
  note c2 = settle_delay_after_success
    [where L = demo_lib and net = net_500 and self = "demo_panel PyNone" and code = PyNone and evs = "[]",
     THEN conjunct2, THEN conjunct2, THEN conjunct2, THEN mp, OF disjI1, OF g]
  show ?thesis
    using h g c1 c2 by (intro conjI) (elim conjE, assumption)+
qed

subsection \<open>Falsy codes\<close>

text \<open>
  Claim C10. The call-supplied code is tested for truthiness: with a falsy code
  (\<open>None\<close>, the empty string, zero) arming and disarming do exactly what they do
  without a code, which is to use the default code. The code that resolves reaches
  the panel as \<open>str(code)\<close> in the field \<open>ucode\<close>: the one request of the call
  carries the encryption of the parameter set with that field.
\<close>

theorem falsy_code_uses_default:
  "(\<not> truthy code \<longrightarrow>
      resolved_code self code = self_code self \<and>
      alarm_arm L net self arm_name code evs = alarm_arm L net self arm_name PyNone evs \<and>
      async_alarm_disarm L net self code evs = async_alarm_disarm L net self PyNone evs) \<and>
   (resolved_code self code \<noteq> PyNone \<and>
    encrypt_params L (self_cipher self)
      [(''arming'', arm_name), (''pID'', ''1''), (''ucode'', py_str (resolved_code self code)),
       (''operation'', ''set'')] = Inr blob \<longrightarrow>
      posted (snd (snd (alarm_arm L net self arm_name code evs))) =
        posted evs @ [request_for self ''/AdvancedSecurity/ArmWithCode'' blob]) \<and>
   (resolved_code self code \<noteq> PyNone \<and>
    encrypt_params L (self_cipher self)
      [(''pID'', ''1''), (''ucode'', py_str (resolved_code self code)), (''operation'', ''set'')] = Inr blob' \<longrightarrow>
      posted (snd (snd (async_alarm_disarm L net self code evs))) =
        posted evs @ [request_for self ''/AdvancedSecurity/DisarmWithCode'' blob'])"
proof (intro conjI impI)
  assume f: "\<not> truthy code"
  show "resolved_code self code = self_code self"
    using f by (simp add: resolved_code_def)
  show "alarm_arm L net self arm_name code evs = alarm_arm L net self arm_name PyNone evs"
    using f by (simp add: alarm_arm_def)
  show "async_alarm_disarm L net self code evs = async_alarm_disarm L net self PyNone evs"
    using f by (simp add: async_alarm_disarm_def)
next
  assume "resolved_code self code \<noteq> PyNone \<and>
    encrypt_params L (self_cipher self)
      [(''arming'', arm_name), (''pID'', ''1''), (''ucode'', py_str (resolved_code self code)),
       (''operation'', ''set'')] = Inr blob"
  then show "posted (snd (snd (alarm_arm L net self arm_name code evs))) =
        posted evs @ [request_for self ''/AdvancedSecurity/ArmWithCode'' blob]"
    by (simp add: alarm_arm_posted)
next
  assume "resolved_code self code \<noteq> PyNone \<and>
    encrypt_params L (self_cipher self)
      [(''pID'', ''1''), (''ucode'', py_str (resolved_code self code)), (''operation'', ''set'')] = Inr blob'"
  then show "posted (snd (snd (async_alarm_disarm L net self code evs))) =
        posted evs @ [request_for self ''/AdvancedSecurity/DisarmWithCode'' blob']"
    by (simp add: disarm_posted)
qed

theorem falsy_code_uses_default_witness:
  "\<not> truthy (PyStr '''') \<and>
   resolved_code (demo_panel (PyInt 1234)) (PyStr '''') = self_code (demo_panel (PyInt 1234)) \<and>
   alarm_arm demo_lib net_500 (demo_panel (PyInt 1234)) ''AWAY'' (PyStr '''') [] =
     alarm_arm demo_lib net_500 (demo_panel (PyInt 1234)) ''AWAY'' PyNone [] \<and>
   py_str (resolved_code (demo_panel (PyInt 1234)) (PyStr '''')) = ''1234'' \<and>
   resolved_code (demo_panel (PyInt 1234)) (PyStr '''') \<noteq> PyNone \<and>
   encrypt_params demo_lib (self_cipher (demo_panel (PyInt 1234)))
     [(''pID'', ''1''), (''ucode'', py_str (resolved_code (demo_panel (PyInt 1234)) (PyStr ''''))),
      (''operation'', ''set'')] =
     Inr (''gLm0zcHWhZOflJXNwcLDxKbXxqu3svf9+POitai7z8k='' @ [CHR 0x0A]) \<and>
   posted (snd (snd (async_alarm_disarm demo_lib net_500 (demo_panel (PyInt 1234)) (PyStr '''') []))) =
     posted [] @ [request_for (demo_panel (PyInt 1234)) ''/AdvancedSecurity/DisarmWithCode''
                    (''gLm0zcHWhZOflJXNwcLDxKbXxqu3svf9+POitai7z8k='' @ [CHR 0x0A])]"
proof -
  have f: "\<not> truthy (PyStr '''')"
    by simp
  have s: "py_str (resolved_code (demo_panel (PyInt 1234)) (PyStr '''')) = ''1234''"
    by code_simp
  have h: "resolved_code (demo_panel (PyInt 1234)) (PyStr '''') \<noteq> PyNone \<and>
   encrypt_params demo_lib (self_cipher (demo_panel (PyInt 1234)))
     [(''pID'', ''1''), (''ucode'', py_str (resolved_code (demo_panel (PyInt 1234)) (PyStr ''''))),
      (''operation'', ''set'')] =
     Inr (''gLm0zcHWhZOflJXNwcLDxKbXxqu3svf9+POitai7z8k='' @ [CHR 0x0A])"
    by code_simp
  note c1 = falsy_code_uses_default
    [where code = "PyStr ''''" and self = "demo_panel (PyInt 1234)" and L = demo_lib and net = net_500
       and arm_name = "''AWAY''" and evs = "[]",
     THEN conjunct1, THEN mp, OF f]
  note c2 = falsy_code_uses_default
    [where code = "PyStr ''''" and self = "demo_panel (PyInt 1234)" and L = demo_lib and net = net_500
       and evs = "[]",
     THEN conjunct2, THEN conjunct2, THEN mp, OF h]
  show ?thesis
    using f s h c1 c2 by (intro conjI) (elim conjE, assumption)+
qed

subsection \<open>A failed status poll\<close>

text \<open>
  Claim C4, as amended. When the panel answers a status poll with a status other than
  200, the update does not raise: it sets the state to unavailable and logs the
  endpoint with the status and the text \<open>unable to get alarm status\<close>.
\<close>

theorem status_poll_http_error:
  "encrypt_params L (self_cipher self) [(''operation'', ''get'')] = Inr blob \<and>
   net (request_for self ''/GetSecurityStatus'' blob) = Response status_code body \<and>
   status_code \<noteq> 200 \<longrightarrow>
   async_update L net self evs =
     (Inr (), self\<lparr>self_attr_state := Some STATE_UNAVAILABLE\<rparr>,
      evs @ [HttpPost (request_for self ''/GetSecurityStatus'' blob),
             Log ERROR (''endpoint '' @ ''/GetSecurityStatus'' @ '' returned a '' @ str_int status_code) [],
             Log ERROR ''unable to get alarm status'' []])"
proof (intro impI, elim conjE)
  assume e: "encrypt_params L (self_cipher self) [(''operation'', ''get'')] = Inr blob"
    and n: "net (request_for self ''/GetSecurityStatus'' blob) = Response status_code body"
    and s: "status_code \<noteq> 200"
  note p = post_request_not_200 [where net = net, OF e n s, of evs]
  show "async_update L net self evs =
     (Inr (), self\<lparr>self_attr_state := Some STATE_UNAVAILABLE\<rparr>,
      evs @ [HttpPost (request_for self ''/GetSecurityStatus'' blob),
             Log ERROR (''endpoint '' @ ''/GetSecurityStatus'' @ '' returned a '' @ str_int status_code) [],
             Log ERROR ''unable to get alarm status'' []])"
    by (simp only: async_update_def p) (simp add: update_from_response_def reported_state_def)
qed

theorem status_poll_http_error_witness:
  "encrypt_params demo_lib (self_cipher (demo_panel PyNone)) [(''operation'', ''get'')] =
     Inr (''n4CVgpGEmZ+ezZeVhPPz8w=='' @ [CHR 0x0A]) \<and>
   net_500 (request_for (demo_panel PyNone) ''/GetSecurityStatus'' (''n4CVgpGEmZ+ezZeVhPPz8w=='' @ [CHR 0x0A])) =
     Response 500 (Inl (JSONDecodeError ''Expecting value'')) \<and>
   (500 :: int) \<noteq> 200 \<and>
   async_update demo_lib net_500 (demo_panel PyNone) [] =
     (Inr (), (demo_panel PyNone)\<lparr>self_attr_state := Some STATE_UNAVAILABLE\<rparr>,
      [] @ [HttpPost (request_for (demo_panel PyNone) ''/GetSecurityStatus''
                        (''n4CVgpGEmZ+ezZeVhPPz8w=='' @ [CHR 0x0A])),
            Log ERROR (''endpoint '' @ ''/GetSecurityStatus'' @ '' returned a '' @ str_int 500) [],
            Log ERROR ''unable to get alarm status'' []])"
proof -
  have h: "encrypt_params demo_lib (self_cipher (demo_panel PyNone)) [(''operation'', ''get'')] =
     Inr (''n4CVgpGEmZ+ezZeVhPPz8w=='' @ [CHR 0x0A]) \<and>
   net_500 (request_for (demo_panel PyNone) ''/GetSecurityStatus'' (''n4CVgpGEmZ+ezZeVhPPz8w=='' @ [CHR 0x0A])) =
     Response 500 (Inl (JSONDecodeError ''Expecting value'')) \<and>
   (500 :: int) \<noteq> 200"
    by code_simp
  note c = status_poll_http_error [where net = net_500 and evs = "[]", THEN mp, OF h]
  show ?thesis
    using h c by (intro conjI) (elim conjE, assumption)+
qed

text \<open>
  The claim as stated fails when the panel cannot be reached: the exception of
  \<open>requests.post\<close> leaves \<open>async_update\<close>, and the state stays what it was
  instead of becoming unavailable.
\<close>

theorem status_poll_counterexample:
  "fst (async_update demo_lib net_unreachable
          ((demo_panel PyNone)\<lparr>self_attr_state := Some STATE_ALARM_ARMED_AWAY\<rparr>) []) =
     Inl (RequestException ''ConnectionError'') \<and>
   self_attr_state (fst (snd (async_update demo_lib net_unreachable
          ((demo_panel PyNone)\<lparr>self_attr_state := Some STATE_ALARM_ARMED_AWAY\<rparr>) []))) =
     Some STATE_ALARM_ARMED_AWAY"
  by code_simp

subsection \<open>Padding\<close>

lemma length_pad: "length (pad m 16) mod 16 = 0"
proof -
  have "length (pad m 16) = length m + (16 - length m mod 16)"
    by (simp add: pad_def Let_def)
  then show ?thesis by presburger
qed

lemma unpad_pad: "unpad (pad m 16) 16 = Inr m"
proof -
  define n where "n = 16 - length m mod 16"
  have n: "1 \<le> n" "n \<le> 16" by (simp_all add: n_def)
  have p: "pad m 16 = m @ replicate n (of_nat n)"
    by (simp add: pad_def n_def Let_def)
  have l: "last (pad m 16) = (of_nat n :: byte)"
    using n by (simp add: p)
  have u: "unat (of_nat n :: byte) = n"
    using n by (simp add: unat_of_nat)
  have len: "length (pad m 16) mod 16 = 0" by (rule length_pad)
  have len2: "length (pad m 16) = length m + n" by (simp add: p)
  show ?thesis
    unfolding unpad_def Let_def l u
    using n len len2 by (simp add: p)
qed

lemma unpad_Inr_pad:
  assumes "unpad d 16 = Inr m"
  shows "d = pad m 16"
proof -
  define n where "n = unat (last d)"
  have ne: "length d \<noteq> 0"
    using assms by (simp add: unpad_def Let_def split: if_split_asm)
  have al: "length d mod 16 = 0"
    using assms ne by (simp add: unpad_def Let_def split: if_split_asm)
  have rng: "\<not> (n < 1 \<or> n > min 16 (length d))"
    using assms ne al by (simp add: unpad_def Let_def n_def split: if_split_asm)
  have tl: "drop (length d - n) d = replicate n (of_nat n)"
    using assms ne al rng by (simp add: unpad_def Let_def n_def split: if_split_asm)
  have m: "m = take (length d - n) d"
    using assms ne al rng tl by (simp add: unpad_def Let_def n_def split: if_split_asm)
  have lm: "length m = length d - n" using m by simp
  have n1: "1 \<le> n" and n2: "n \<le> 16" and n3: "n \<le> length d"
    using rng by (auto simp: min_def split: if_split_asm)
  define k where "k = length d div 16"
  have "length d = 16 * (length d div 16) + length d mod 16"
    by simp
  then have k: "length d = 16 * k"
    using al by (simp add: k_def)
  have k1: "1 \<le> k" using k ne by simp
  have "length d - n = 16 * (k - 1) + (16 - n)"
    using k k1 n2 by simp
  then have "length m mod 16 = (16 - n) mod 16"
    by (simp add: lm)
  also have "\<dots> = 16 - n"
    using n1 by simp
  finally have "16 - length m mod 16 = n"
    using n2 by simp
  then have "pad m 16 = m @ replicate n (of_nat n)"
    by (simp add: pad_def Let_def)
  also have "\<dots> = take (length d - n) d @ drop (length d - n) d"
    by (simp add: m tl)
  finally show ?thesis by simp
qed

lemma unpad_iff: "unpad d 16 = Inr m \<longleftrightarrow> d = pad m 16"
  using unpad_pad unpad_Inr_pad by blast

subsection \<open>Cipher block chaining\<close>

lemma length_xor_bytes: "length (xor_bytes a b) = min (length a) (length b)"
  by (simp add: xor_bytes_def)

lemma xor_bytes_cancel:
  assumes "length a = length b"
  shows "xor_bytes (xor_bytes a b) b = a"
  using assms by (induction a b rule: list_induct2) (simp_all add: xor_bytes_def xor.assoc)

lemma cbc_encrypt_blocks_Nil [simp]: "cbc_encrypt_blocks E iv [] = ([], iv)"
  by (simp add: cbc_encrypt_blocks.simps)

lemma cbc_decrypt_blocks_Nil [simp]: "cbc_decrypt_blocks D iv [] = ([], iv)"
  by (simp add: cbc_decrypt_blocks.simps)

lemma cbc_encrypt_blocks_step:
  "data \<noteq> [] \<Longrightarrow>
   fst (cbc_encrypt_blocks E iv data) =
     E (xor_bytes (take 16 data) iv) @ fst (cbc_encrypt_blocks E (E (xor_bytes (take 16 data) iv)) (drop 16 data))"
  by (subst cbc_encrypt_blocks.simps) (simp add: Let_def split: prod.split)

lemma cbc_decrypt_blocks_step:
  "data \<noteq> [] \<Longrightarrow>
   fst (cbc_decrypt_blocks D iv data) =
     xor_bytes (D (take 16 data)) iv @ fst (cbc_decrypt_blocks D (take 16 data) (drop 16 data))"
  by (subst cbc_decrypt_blocks.simps) (simp add: Let_def split: prod.split)

lemma cbc_blocks_roundtrip:
  assumes inv: "\<And>b. length b = 16 \<Longrightarrow> D (E b) = b \<and> length (E b) = 16"
  shows "length iv = 16 \<Longrightarrow> length data mod 16 = 0 \<Longrightarrow>
         fst (cbc_decrypt_blocks D iv (fst (cbc_encrypt_blocks E iv data))) = data \<and>
         length (fst (cbc_encrypt_blocks E iv data)) = length data"
proof (induction "length data" arbitrary: iv data rule: less_induct)
  case less
  show ?case
  proof (cases "data = []")
    case True
    then show ?thesis by simp
  next
    case False
    have len: "16 \<le> length data"
    proof (rule ccontr)
      assume "\<not> 16 \<le> length data"
      then have "length data mod 16 = length data" by simp
      with less.prems False show False by simp
    qed
    define x where "x = xor_bytes (take 16 data) iv"
    define c where "c = E x"
    define cs where "cs = fst (cbc_encrypt_blocks E c (drop 16 data))"
    have lx: "length x = 16"
      using len less.prems by (simp add: x_def length_xor_bytes)
    have lc: "length c = 16" and dc: "D c = x"
      using inv [OF lx] by (simp_all add: c_def)
    have rest: "length (drop 16 data) mod 16 = 0"
      using less.prems len by (simp add: mod_diff_eq [symmetric] le_mod_geq)
    have smaller: "length (drop 16 data) < length data"
      using len by simp
    have ih: "fst (cbc_decrypt_blocks D c cs) = drop 16 data" "length cs = length (drop 16 data)"
      using less.hyps [OF smaller lc rest] by (simp_all add: cs_def)
    have enc: "fst (cbc_encrypt_blocks E iv data) = c @ cs"
      using False by (simp add: cbc_encrypt_blocks_step x_def c_def cs_def)
    have ne: "c @ cs \<noteq> []" using lc by auto
    have "fst (cbc_decrypt_blocks D iv (c @ cs)) = xor_bytes (D c) iv @ fst (cbc_decrypt_blocks D c cs)"
      using lc by (simp add: cbc_decrypt_blocks_step [OF ne])
    also have "xor_bytes (D c) iv = take 16 data"
      using len less.prems by (simp add: dc x_def xor_bytes_cancel)
    finally have "fst (cbc_decrypt_blocks D iv (c @ cs)) = data"
      by (simp add: ih)
    moreover have "length (c @ cs) = length data"
      using lc ih len by simp
    ultimately show ?thesis by (simp add: enc)
  qed
qed

subsection \<open>Base64\<close>

lemma sextet_unat:
  assumes "drop_bit 6 (v :: byte) = 0"
  shows "unat v < 64"
proof -
  have "unat (drop_bit 6 v) = drop_bit 6 (unat v)"
    by (rule unat_drop_bit_eq)
  also have "\<dots> = unat v div 2 ^ 6"
    by (rule drop_bit_eq_div)
  finally have "unat v div 64 = 0"
    using assms by simp
  then show ?thesis by (simp add: div_eq_0_iff)
qed

lemma b2a_char_not_pad: "b2a_char v \<noteq> CHR ''=''"
proof -
  have "(of_char (b2a_char v) :: nat) \<noteq> 61"
    by (auto simp add: b2a_char_def Let_def)
  then show ?thesis by auto
qed

lemma a2b_b2a_char:
  assumes "drop_bit 6 (v :: byte) = 0"
  shows "a2b_char (b2a_char v) = Some v"
proof -
  define n where "n = unat v"
  have n: "n < 64" using sextet_unat [OF assms] by (simp add: n_def)
  have un: "unat v = n" by (simp add: n_def)
  have vn: "of_nat n = v" by (simp add: n_def)
  consider "n < 26" | "26 \<le> n" "n < 52" | "52 \<le> n" "n < 62" | "n = 62" | "n = 63"
    using n by linarith
  then show ?thesis
  proof cases
    case 1
    then have "b2a_char v = char_of (65 + n)"
      by (simp add: b2a_char_def un)
    moreover have "a2b_char (char_of (65 + n)) = Some (of_nat n)"
      using 1 by (simp add: a2b_char_def)
    ultimately show ?thesis by (simp add: vn)
  next
    case 2
    then have "b2a_char v = char_of (71 + n)"
      by (simp add: b2a_char_def un)
    moreover have "a2b_char (char_of (71 + n)) = Some (of_nat n)"
      using 2 by (simp add: a2b_char_def)
    ultimately show ?thesis by (simp add: vn)
  next
    case 3
    then have "b2a_char v = char_of (n - 4)"
      by (simp add: b2a_char_def un)
    moreover have "a2b_char (char_of m) = Some (of_nat (m + 4))" if "48 \<le> m" "m \<le> 57" for m :: nat
      using that by (simp add: a2b_char_def Let_def)
    from this [of "n - 4"] have "a2b_char (char_of (n - 4)) = Some (of_nat n)"
      using 3 by simp
    ultimately show ?thesis by (simp add: vn)
  next
    case 4
    then have "b2a_char v = CHR ''+''"
      by (simp add: b2a_char_def un)
    moreover have "a2b_char (CHR ''+'') = Some 62"
      by (simp add: a2b_char_def)
    moreover have "v = 62" using vn 4 by simp
    ultimately show ?thesis by simp
  next
    case 5
    then have "b2a_char v = CHR ''/''"
      by (simp add: b2a_char_def un)
    moreover have "a2b_char (CHR ''/'') = Some 63"
      by (simp add: a2b_char_def)
    moreover have "v = 63" using vn 5 by simp
    ultimately show ?thesis by simp
  qed
qed

lemma less8: "n < 8 \<Longrightarrow> n \<in> {0, 1, 2, 3, 4, 5, 6, 7 :: nat}"
  by (simp only: insert_iff empty_iff) arith

lemma sextet1: "drop_bit 6 (drop_bit 2 (a :: byte)) = 0"
  by (rule bit_word_eqI) (auto simp: bit_simps)

lemma sextet2: "drop_bit 6 (push_bit 4 (a AND 3) OR drop_bit 4 (b :: byte)) = 0"
  apply (rule bit_word_eqI)
  subgoal for n using less8 [of n] by (auto simp: bit_simps)
  done


lemma sextet3: "drop_bit 6 (push_bit 2 (b AND 0xF) OR drop_bit 6 (c :: byte)) = 0"
  apply (rule bit_word_eqI)
  subgoal for n using less8 [of n] by (auto simp: bit_simps)
  done

lemma sextet4: "drop_bit 6 ((c :: byte) AND 0x3F) = 0"
  apply (rule bit_word_eqI)
  subgoal for n using less8 [of n] by (auto simp: bit_simps)
  done

lemma sextet2a: "drop_bit 6 (push_bit 4 ((a :: byte) AND 3)) = 0"
  apply (rule bit_word_eqI)
  subgoal for n using less8 [of n] by (auto simp: bit_simps)
  done

lemma sextet3a: "drop_bit 6 (push_bit 2 ((b :: byte) AND 0xF)) = 0"
  apply (rule bit_word_eqI)
  subgoal for n using less8 [of n] by (auto simp: bit_simps)
  done

lemma byte1: "push_bit 2 (drop_bit 2 a) OR drop_bit 4 (push_bit 4 (a AND 3) OR drop_bit 4 b) = (a :: byte)"
  apply (rule bit_word_eqI)
  subgoal for n using less8 [of n] by (auto simp: bit_simps numeral_2_eq_2 [symmetric] numeral_3_eq_3 [symmetric])
  done

lemma byte2:
  "push_bit 4 ((push_bit 4 (a AND 3) OR drop_bit 4 b) AND 0x0F) OR
   drop_bit 2 (push_bit 2 (b AND 0xF) OR drop_bit 6 c) = (b :: byte)"
  apply (rule bit_word_eqI)
  subgoal for n using less8 [of n] by (auto simp: bit_simps)
  done

lemma byte3: "push_bit 6 ((push_bit 2 (b AND 0xF) OR drop_bit 6 c) AND 0x03) OR (c AND 0x3F) = (c :: byte)"
  apply (rule bit_word_eqI)
  subgoal for n using less8 [of n] by (auto simp: bit_simps)
  done

lemma byte1a: "push_bit 2 (drop_bit 2 a) OR drop_bit 4 (push_bit 4 (a AND 3)) = (a :: byte)"
  apply (rule bit_word_eqI)
  subgoal for n using less8 [of n] by (auto simp: bit_simps numeral_2_eq_2 [symmetric] numeral_3_eq_3 [symmetric])
  done

lemma byte2a:
  "push_bit 4 ((push_bit 4 (a AND 3) OR drop_bit 4 b) AND 0x0F) OR
   drop_bit 2 (push_bit 2 (b AND 0xF)) = (b :: byte)"
  apply (rule bit_word_eqI)
  subgoal for n using less8 [of n] by (auto simp: bit_simps)
  done

lemma a2b_loop_quad:
  assumes "drop_bit 6 s1 = 0" "drop_bit 6 s2 = 0" "drop_bit 6 s3 = 0" "drop_bit 6 s4 = 0"
  shows "a2b_loop (b2a_char s1 # b2a_char s2 # b2a_char s3 # b2a_char s4 # rest) 0 l p out =
         a2b_loop rest 0 0 0
           (out @ [push_bit 2 s1 OR drop_bit 4 s2, push_bit 4 (s2 AND 0x0F) OR drop_bit 2 s3,
                   push_bit 6 (s3 AND 0x03) OR s4])"
  using assms by (simp add: a2b_b2a_char b2a_char_not_pad)

lemma a2b_loop_pad1:
  assumes "drop_bit 6 s1 = 0" "drop_bit 6 s2 = 0" "drop_bit 6 s3 = 0"
  shows "a2b_loop (b2a_char s1 # b2a_char s2 # b2a_char s3 # CHR ''='' # rest) 0 l p out =
         Inr (out @ [push_bit 2 s1 OR drop_bit 4 s2, push_bit 4 (s2 AND 0x0F) OR drop_bit 2 s3])"
  using assms by (simp add: a2b_b2a_char b2a_char_not_pad)

lemma a2b_loop_pad2:
  assumes "drop_bit 6 s1 = 0" "drop_bit 6 s2 = 0"
  shows "a2b_loop (b2a_char s1 # b2a_char s2 # CHR ''='' # CHR ''='' # rest) 0 l p out =
         Inr (out @ [push_bit 2 s1 OR drop_bit 4 s2])"
  using assms by (simp add: a2b_b2a_char b2a_char_not_pad)

lemma a2b_char_newline: "a2b_char (CHR 0x0A) = None"
  by (simp add: a2b_char_def)

lemma a2b_loop_groups:
  "a2b_loop (b64_groups data @ [CHR 0x0A]) 0 l p out = Inr (out @ data)"
proof (induction data arbitrary: l p out rule: b64_groups.induct)
  case 1
  show ?case by (simp add: a2b_char_newline)
next
  case (2 a)
  have "a2b_loop (b64_groups [a] @ [CHR 0x0A]) 0 l p out =
        Inr (out @ [push_bit 2 (drop_bit 2 a) OR drop_bit 4 (push_bit 4 (a AND 3))])"
    by (simp only: b64_groups.simps append.simps a2b_loop_pad2 [OF sextet1 sextet2a])
  then show ?case by (simp only: byte1a)
next
  case (3 a b)
  have "a2b_loop (b64_groups [a, b] @ [CHR 0x0A]) 0 l p out =
        Inr (out @ [push_bit 2 (drop_bit 2 a) OR drop_bit 4 (push_bit 4 (a AND 3) OR drop_bit 4 b),
                    push_bit 4 ((push_bit 4 (a AND 3) OR drop_bit 4 b) AND 0x0F) OR
                      drop_bit 2 (push_bit 2 (b AND 0xF))])"
    by (simp only: b64_groups.simps append.simps a2b_loop_pad1 [OF sextet1 sextet2 sextet3a])
  then show ?case by (simp only: byte1 byte2a)
next
  case (4 a b c rest)
  have "a2b_loop (b64_groups (a # b # c # rest) @ [CHR 0x0A]) 0 l p out =
        a2b_loop (b64_groups rest @ [CHR 0x0A]) 0 0 0
          (out @ [push_bit 2 (drop_bit 2 a) OR drop_bit 4 (push_bit 4 (a AND 3) OR drop_bit 4 b),
                  push_bit 4 ((push_bit 4 (a AND 3) OR drop_bit 4 b) AND 0x0F) OR
                    drop_bit 2 (push_bit 2 (b AND 0xF) OR drop_bit 6 c),
                  push_bit 6 ((push_bit 2 (b AND 0xF) OR drop_bit 6 c) AND 0x03) OR (c AND 0x3F)])"
    by (simp only: b64_groups.simps append.simps a2b_loop_quad [OF sextet1 sextet2 sextet3 sextet4])
  also have "\<dots> = a2b_loop (b64_groups rest @ [CHR 0x0A]) 0 0 0 (out @ [a, b, c])"
    by (simp only: byte1 byte2 byte3)
  also have "\<dots> = Inr ((out @ [a, b, c]) @ rest)"
    by (rule 4)
  finally show ?case by simp
qed

lemma of_char_b2a_char: "(of_char (b2a_char v) :: nat) < 128"
  by (auto simp: b2a_char_def Let_def)

lemma is_ascii_b64_groups: "is_ascii (b64_groups data)"
  by (induction data rule: b64_groups.induct) (simp_all add: is_ascii_def of_char_b2a_char)

lemma is_ascii_append [simp]: "is_ascii (xs @ ys) \<longleftrightarrow> is_ascii xs \<and> is_ascii ys"
  by (simp add: is_ascii_def)

lemma unat_of_char: "unat (of_char c :: byte) = of_char c"
proof -
  have "(of_char c :: byte) = of_nat (of_char c :: nat)"
    by (simp add: of_nat_of_char)
  then have "unat (of_char c :: byte) = unat (of_nat (of_char c :: nat) :: byte)"
    by (simp only:)
  also have "\<dots> = (of_char c :: nat) mod 2 ^ LENGTH(8)"
    by (rule unat_of_nat)
  finally show ?thesis by simp
qed

lemma char_of_byte_of_char [simp]: "char_of_byte (byte_of_char c) = c"
  by (simp add: char_of_byte_def byte_of_char_def unat_of_char)

lemma byte_of_char_ascii:
  assumes "(of_char c :: nat) < 128"
  shows "byte_of_char c < 0x80"
  using assms by (simp add: byte_of_char_def word_less_nat_alt unat_of_char)

lemma utf8_valid_ascii: "is_ascii s \<Longrightarrow> utf8_valid (encode_utf8 s)"
  by (induction s) (simp_all add: is_ascii_def encode_utf8_def byte_of_char_ascii)

lemma decode_encode_ascii: "is_ascii s \<Longrightarrow> decode_utf8 (encode_utf8 s) = Inr s"
  by (simp add: decode_utf8_def utf8_valid_ascii) (simp add: encode_utf8_def comp_def)

lemma is_ascii_newline: "is_ascii [CHR 0x0A]"
  by (simp add: is_ascii_def)

lemma b2a_base64_text:
  "decode_utf8 (b2a_base64 data) = Inr (b64_groups data @ [CHR 0x0A])"
  by (simp add: b2a_base64_def decode_encode_ascii is_ascii_b64_groups is_ascii_newline)

lemma a2b_b2a_base64: "a2b_base64 (b64_groups data @ [CHR 0x0A]) = Inr data"
  by (simp add: a2b_base64_def is_ascii_b64_groups is_ascii_newline a2b_loop_groups)

subsection \<open>Encoding and decoding\<close>

lemma AES_new_valid:
  assumes "valid_material c"
  shows "AES_new L (key_bin c) (Some (iv_bin c)) = Inr \<lparr>cbc_key = key_bin c, cbc_iv = iv_bin c\<rparr>"
  using assms by (auto simp: AES_new_def valid_material_def)

lemma AES_new_invalid:
  assumes "\<not> valid_material c"
  shows "\<exists>msg. AES_new L (key_bin c) (Some (iv_bin c)) = Inl (ValueError msg)"
  using assms by (auto simp: AES_new_def valid_material_def Let_def)

lemma cbc_encrypt_padded:
  "cbc_encrypt L ciph (pad m 16) =
     Inr (fst (cbc_encrypt_blocks (aes_encrypt_block L (cbc_key ciph)) (cbc_iv ciph) (pad m 16)),
          ciph\<lparr>cbc_iv := snd (cbc_encrypt_blocks (aes_encrypt_block L (cbc_key ciph)) (cbc_iv ciph) (pad m 16))\<rparr>)"
  by (simp add: cbc_encrypt_def length_pad split: prod.split)

text \<open>With valid material, encoding always returns the same explicit text.\<close>

lemma encrypt_params_valid:
  assumes "valid_material c"
  shows "encrypt_params L c params =
     Inr (b64_groups (fst (cbc_encrypt_blocks (aes_encrypt_block L (key_bin c)) (iv_bin c)
                             (pad (encode_utf8 (urlencode params)) 16))) @ [CHR 0x0A])"
  by (simp add: encrypt_params_def Let_def AES_new_valid [OF assms] cbc_encrypt_padded b2a_base64_text)

lemma encrypt_params_invalid:
  assumes "\<not> valid_material c"
  shows "\<exists>msg. encrypt_params L c params = Inl (ValueError msg)"
proof -
  obtain msg where "AES_new L (key_bin c) (Some (iv_bin c)) = Inl (ValueError msg)"
    using AES_new_invalid [OF assms] by blast
  then show ?thesis by (simp add: encrypt_params_def Let_def)
qed

lemma decrypt_params_invalid:
  assumes "\<not> valid_material c"
  shows "\<exists>msg. decrypt_params L c blob = Inl (ValueError msg)"
proof -
  obtain msg where "AES_new L (key_bin c) (Some (iv_bin c)) = Inl (ValueError msg)"
    using AES_new_invalid [OF assms] by blast
  then show ?thesis by (simp add: decrypt_params_def)
qed

lemma decrypt_encrypt:
  assumes v: "valid_material c" and inv: "block_cipher_inverts L (key_bin c)"
    and e: "encrypt_params L c params = Inr blob"
  shows "decrypt_params L c blob = json_loads L (encode_utf8 (urlencode params))"
proof -
  define m where "m = encode_utf8 (urlencode params)"
  define E where "E = aes_encrypt_block L (key_bin c)"
  define D where "D = aes_decrypt_block L (key_bin c)"
  define ct where "ct = fst (cbc_encrypt_blocks E (iv_bin c) (pad m 16))"
  have blob: "blob = b64_groups ct @ [CHR 0x0A]"
    using e by (simp add: encrypt_params_valid [OF v] ct_def E_def m_def)
  have ED: "\<And>b. length b = 16 \<Longrightarrow> D (E b) = b \<and> length (E b) = 16"
    using inv by (simp add: block_cipher_inverts_def D_def E_def)
  have iv: "length (iv_bin c) = 16"
    using v by (simp add: valid_material_def)
  have rt: "fst (cbc_decrypt_blocks D (iv_bin c) ct) = pad m 16" and len: "length ct = length (pad m 16)"
    using cbc_blocks_roundtrip [of D E "iv_bin c" "pad m 16", OF ED iv length_pad]
    by (simp_all add: ct_def)
  have al: "length ct mod 16 = 0"
    by (simp add: len length_pad)
  have dec: "cbc_decrypt L \<lparr>cbc_key = key_bin c, cbc_iv = iv_bin c\<rparr> ct =
        Inr (pad m 16, \<lparr>cbc_key = key_bin c, cbc_iv = snd (cbc_decrypt_blocks D (iv_bin c) ct)\<rparr>)"
    using al rt by (auto simp: cbc_decrypt_def D_def split: prod.split)
  show ?thesis
    by (simp add: decrypt_params_def AES_new_valid [OF v] blob a2b_b2a_base64 dec unpad_pad m_def)
qed

lemma a2b_loop_error:
  "a2b_loop s quad_pos leftchar pads bin_data = Inl e \<Longrightarrow> is_value_error e"
proof (induction s arbitrary: quad_pos leftchar pads bin_data)
  case Nil
  then show ?case by (simp split: if_split_asm) auto
next
  case (Cons ch rest)
  show ?case
  proof (cases "ch = CHR ''=''")
    case True
    with Cons.prems Cons.IH show ?thesis
      by (simp split: if_split_asm)
  next
    case False
    show ?thesis
    proof (cases "a2b_char ch")
      case None
      with False Cons.prems Cons.IH show ?thesis by simp
    next
      case (Some v)
      with False Cons.prems Cons.IH show ?thesis
        by (simp split: if_split_asm)
    qed
  qed
qed

lemma a2b_base64_error: "a2b_base64 blob = Inl e \<Longrightarrow> is_value_error e"
  by (auto simp: a2b_base64_def a2b_loop_error split: if_split_asm)

lemma unpad_error: "unpad d n = Inl e \<Longrightarrow> is_value_error e"
  by (auto simp: unpad_def Let_def split: if_split_asm)

lemma cbc_decrypt_aligned:
  "length raw mod 16 = 0 \<Longrightarrow>
   \<exists>st. cbc_decrypt L ciph raw =
     Inr (fst (cbc_decrypt_blocks (aes_decrypt_block L (cbc_key ciph)) (cbc_iv ciph) raw), st)"
  by (simp add: cbc_decrypt_def split: prod.split)

lemma cbc_decrypt_unaligned:
  "length raw mod 16 \<noteq> 0 \<Longrightarrow>
   cbc_decrypt L ciph raw = Inl (ValueError ''Data must be padded to 16 byte boundary in CBC mode'')"
  by (simp add: cbc_decrypt_def)

text \<open>With valid material, decoding is the four stages in a row.\<close>

lemma decrypt_params_valid:
  assumes "valid_material c"
  shows "decrypt_params L c blob =
     (case a2b_base64 blob of
        Inl e \<Rightarrow> Inl e
      | Inr raw \<Rightarrow>
          if length raw mod 16 \<noteq> 0
          then Inl (ValueError ''Data must be padded to 16 byte boundary in CBC mode'')
          else (case unpad (fst (cbc_decrypt_blocks (aes_decrypt_block L (key_bin c)) (iv_bin c) raw)) 16 of
                  Inl e \<Rightarrow> Inl e
                | Inr msg \<Rightarrow> json_loads L msg))"
proof (cases "a2b_base64 blob")
  case (Inl e)
  then show ?thesis by (simp add: decrypt_params_def AES_new_valid [OF assms])
next
  case (Inr raw)
  show ?thesis
  proof (cases "length raw mod 16 = 0")
    case True
    from cbc_decrypt_aligned [OF True, of L "\<lparr>cbc_key = key_bin c, cbc_iv = iv_bin c\<rparr>"]
    obtain st where "cbc_decrypt L \<lparr>cbc_key = key_bin c, cbc_iv = iv_bin c\<rparr> raw =
        Inr (fst (cbc_decrypt_blocks (aes_decrypt_block L (key_bin c)) (iv_bin c) raw), st)"
      by auto
    then show ?thesis
      using True Inr by (simp add: decrypt_params_def AES_new_valid [OF assms])
  next
    case False
    then show ?thesis
      using Inr by (simp add: decrypt_params_def AES_new_valid [OF assms] cbc_decrypt_unaligned)
  qed
qed

subsection \<open>Hexadecimal text\<close>

lemma hex_value_ascii: "hex_value c \<noteq> None \<Longrightarrow> (of_char c :: nat) < 128"
  by (simp add: hex_value_def Let_def split: if_split_asm)

lemma hex_pairs_Inr_iff:
  "even (length s) \<Longrightarrow>
   (\<exists>bs. hex_pairs s = Inr bs) \<longleftrightarrow> list_all (\<lambda>c. hex_value c \<noteq> None) s"
proof (induction s rule: hex_pairs.induct)
  case (1 a b rest)
  then have ev: "even (length rest)" by simp
  show ?case
    using 1 ev by (cases "hex_value a"; cases "hex_value b"; cases "hex_pairs rest") auto
qed simp_all

lemma hex_pairs_length:
  "even (length s) \<Longrightarrow> hex_pairs s = Inr bs \<Longrightarrow> length bs = length s div 2"
proof (induction s arbitrary: bs rule: hex_pairs.induct)
  case (1 a b rest)
  then have ev: "even (length rest)" by simp
  show ?case
    using 1 ev by (cases "hex_value a"; cases "hex_value b"; cases "hex_pairs rest") auto
qed simp_all

lemma hex_text_ascii: "list_all (\<lambda>c. hex_value c \<noteq> None) s \<Longrightarrow> is_ascii s"
  by (induction s) (simp_all add: is_ascii_def hex_value_ascii)

lemma a2b_hex_Inr_iff: "(\<exists>bs. a2b_hex s = Inr bs) \<longleftrightarrow> hex_text s"
proof (cases "is_ascii s \<and> even (length s)")
  case True
  then show ?thesis
    using hex_pairs_Inr_iff [of s] by (simp add: a2b_hex_def hex_text_def)
next
  case False
  then show ?thesis
    using hex_text_ascii [of s] by (auto simp: a2b_hex_def hex_text_def)
qed

lemma a2b_hex_length: "a2b_hex s = Inr bs \<Longrightarrow> length bs = length s div 2"
  by (simp add: a2b_hex_def hex_pairs_length split: if_split_asm)

lemma Cipher_init_Inr_iff: "(\<exists>c. Cipher_init key iv = Inr c) \<longleftrightarrow> hex_text key \<and> hex_text iv"
proof -
  have "(\<exists>c. Cipher_init key iv = Inr c) \<longleftrightarrow> (\<exists>kb. a2b_hex key = Inr kb) \<and> (\<exists>ib. a2b_hex iv = Inr ib)"
    by (cases "a2b_hex key"; cases "a2b_hex iv") (simp_all add: Cipher_init_def)
  then show ?thesis by (simp add: a2b_hex_Inr_iff)
qed

lemma Cipher_init_lengths:
  assumes "Cipher_init key iv = Inr c"
  shows "length (key_bin c) = length key div 2 \<and> length (iv_bin c) = length iv div 2"
proof -
  from assms obtain kb ib where "a2b_hex key = Inr kb" "a2b_hex iv = Inr ib"
    and c: "c = \<lparr>key_bin = kb, iv_bin = ib\<rparr>"
    by (cases "a2b_hex key"; cases "a2b_hex iv") (simp_all add: Cipher_init_def)
  then show ?thesis by (simp add: a2b_hex_length)
qed

lemma Cipher_init_bytes:
  assumes "Cipher_init key iv = Inr c"
  shows "a2b_hex key = Inr (key_bin c) \<and> a2b_hex iv = Inr (iv_bin c)"
  using assms by (cases "a2b_hex key"; cases "a2b_hex iv") (auto simp: Cipher_init_def)

lemma xor_block_inverts:
  assumes "16 \<le> length key"
  shows "block_cipher_inverts demo_lib key"
proof -
  have "xor_block key (xor_block key b) = b \<and> length (xor_block key b) = 16" if "length b = 16" for b
    using that assms by (simp add: xor_block_def xor_bytes_cancel length_xor_bytes)
  then show ?thesis by (simp add: block_cipher_inverts_def demo_lib_def)
qed

subsection \<open>Constructing the cipher\<close>

text \<open>
  Claim C8, as amended. Constructing the cipher only converts the key and the IV from
  hexadecimal text: it succeeds exactly when both are strings of hexadecimal digits of
  even length, whatever their lengths, and the object then holds half as many bytes
  as the text has digits, the bytes that \<open>a2b_hex\<close> returns. The lengths are checked later, by \<open>AES.new\<close> in every
  encoding and decoding: encoding returns a blob exactly when the key has 16, 24 or
  32 bytes and the IV has 16, and otherwise encoding and decoding raise
  \<open>ValueError\<close>.
\<close>

theorem cipher_init_checks_text_only:
  "((\<exists>c. Cipher_init key iv = Inr c) \<longleftrightarrow> hex_text key \<and> hex_text iv) \<and>
   (Cipher_init key iv = Inr c \<longrightarrow>
      length (key_bin c) = length key div 2 \<and> length (iv_bin c) = length iv div 2 \<and>
      ((\<exists>text. encrypt_params L c params = Inr text) \<longleftrightarrow> valid_material c) \<and>
      (\<not> valid_material c \<longrightarrow>
         (\<exists>msg. encrypt_params L c params = Inl (ValueError msg)) \<and>
         (\<exists>msg. decrypt_params L c blob = Inl (ValueError msg))) \<and>
      a2b_hex key = Inr (key_bin c) \<and> a2b_hex iv = Inr (iv_bin c))"
proof (intro conjI impI)
  show "(\<exists>c. Cipher_init key iv = Inr c) \<longleftrightarrow> hex_text key \<and> hex_text iv"
    by (rule Cipher_init_Inr_iff)
next
  assume "Cipher_init key iv = Inr c"
  then show "length (key_bin c) = length key div 2" "length (iv_bin c) = length iv div 2"
    using Cipher_init_lengths by simp_all
next
  show "(\<exists>text. encrypt_params L c params = Inr text) \<longleftrightarrow> valid_material c"
  proof (cases "valid_material c")
    case True
    then show ?thesis by (simp add: encrypt_params_valid)
  next
    case False
    then show ?thesis using encrypt_params_invalid [OF False, of L params] by auto
  qed
next
  assume "\<not> valid_material c"
  then show "\<exists>msg. encrypt_params L c params = Inl (ValueError msg)"
    "\<exists>msg. decrypt_params L c blob = Inl (ValueError msg)"
    by (simp_all add: encrypt_params_invalid decrypt_params_invalid)
next
  assume "Cipher_init key iv = Inr c"
  then show "a2b_hex key = Inr (key_bin c)" "a2b_hex iv = Inr (iv_bin c)"
    using Cipher_init_bytes by simp_all
qed

theorem cipher_init_checks_text_only_witness:
  "Cipher_init demo_key demo_iv = Inr demo_cipher \<and>
   hex_text demo_key \<and> hex_text demo_iv \<and>
   length (key_bin demo_cipher) = length demo_key div 2 \<and>
   length (iv_bin demo_cipher) = length demo_iv div 2 \<and>
   Cipher_init ''00112233445566778899aabbccddeeff'' ''0011'' =
     Inr \<lparr>key_bin = [0, 17, 34, 51, 68, 85, 102, 119, 136, 153, 170, 187, 204, 221, 238, 255],
          iv_bin = [0, 17]\<rparr> \<and>
   \<not> valid_material
        \<lparr>key_bin = [0, 17, 34, 51, 68, 85, 102, 119, 136, 153, 170, 187, 204, 221, 238, 255],
         iv_bin = [0, 17]\<rparr> \<and>
   (\<exists>msg. encrypt_params demo_lib
            \<lparr>key_bin = [0, 17, 34, 51, 68, 85, 102, 119, 136, 153, 170, 187, 204, 221, 238, 255],
             iv_bin = [0, 17]\<rparr> [(''operation'', ''get'')] = Inl (ValueError msg))"
proof -
  have h: "Cipher_init demo_key demo_iv = Inr demo_cipher"
    by code_simp
  have g: "Cipher_init ''00112233445566778899aabbccddeeff'' ''0011'' =
     Inr \<lparr>key_bin = [0, 17, 34, 51, 68, 85, 102, 119, 136, 153, 170, 187, 204, 221, 238, 255],
          iv_bin = [0, 17]\<rparr>"
    by code_simp
  have n: "\<not> valid_material
        \<lparr>key_bin = [0, 17, 34, 51, 68, 85, 102, 119, 136, 153, 170, 187, 204, 221, 238, 255],
         iv_bin = [0, 17]\<rparr>"
    by (simp add: valid_material_def)
  have ex: "\<exists>c. Cipher_init demo_key demo_iv = Inr c"
    using h by (rule exI)
  note t1 = cipher_init_checks_text_only
    [where key = demo_key and iv = demo_iv, THEN conjunct1, THEN iffD1, OF ex]
  note t2a = cipher_init_checks_text_only
    [where key = demo_key and iv = demo_iv and c = demo_cipher, THEN conjunct2, THEN mp, OF h,
     THEN conjunct1]
  note t2b = cipher_init_checks_text_only
    [where key = demo_key and iv = demo_iv and c = demo_cipher, THEN conjunct2, THEN mp, OF h,
     THEN conjunct2, THEN conjunct1]
  note t3 = cipher_init_checks_text_only
    [where L = demo_lib and params = "[(''operation'', ''get'')]", THEN conjunct2, THEN mp, OF g,
     THEN conjunct2, THEN conjunct2, THEN conjunct2, THEN conjunct1, THEN mp, OF n, THEN conjunct1]
  show ?thesis
    using h g n t1 t2a t2b t3 by (intro conjI) (elim conjE, assumption)+
qed

text \<open>
  The claim as stated fails: a key of 16 bytes and an IV of 2 bytes construct a cipher.
\<close>

theorem cipher_init_counterexample:
  "Cipher_init ''00112233445566778899aabbccddeeff'' ''0011'' =
     Inr \<lparr>key_bin = [0, 17, 34, 51, 68, 85, 102, 119, 136, 153, 170, 187, 204, 221, 238, 255],
          iv_bin = [0, 17]\<rparr>"
  by code_simp

subsection \<open>Encoding is deterministic\<close>

text \<open>
  Claim C7. The encoded blob is a function of the key, the IV and the parameter set
  alone. It does not depend on the random generator of the library (the source hands
  its own IV to \<open>AES.new\<close> in every call, so none is drawn), nor on the decryption or
  the JSON parser; with valid material it is the base64 text of the CBC encryption
  that starts from the configured IV, and with invalid material it is always a
  \<open>ValueError\<close>. Whatever was sent before and whatever the panel answers, a request
  for the same endpoint and parameters carries the same blob.
\<close>

theorem encode_deterministic:
  "encrypt_params (L\<lparr>get_random_bytes := g, aes_decrypt_block := d, json_loads := j\<rparr>) c params =
     encrypt_params L c params \<and>
   (valid_material c \<longrightarrow>
      encrypt_params L c params =
        Inr (b64_groups (fst (cbc_encrypt_blocks (aes_encrypt_block L (key_bin c)) (iv_bin c)
                                (pad (encode_utf8 (urlencode params)) 16))) @ [CHR 0x0A])) \<and>
   (\<not> valid_material c \<longrightarrow> (\<exists>msg. encrypt_params L c params = Inl (ValueError msg))) \<and>
   (\<exists>reqs. \<forall>net evs. posted (snd (post_request L net self endpoint params evs)) = posted evs @ reqs)"
proof (intro conjI impI)
  show "encrypt_params (L\<lparr>get_random_bytes := g, aes_decrypt_block := d, json_loads := j\<rparr>) c params =
     encrypt_params L c params"
  proof -
    have a: "AES_new (L\<lparr>get_random_bytes := g, aes_decrypt_block := d, json_loads := j\<rparr>) k (Some v) =
             AES_new L k (Some v)" for k v
      by (simp add: AES_new_def)
    have b: "cbc_encrypt (L\<lparr>get_random_bytes := g, aes_decrypt_block := d, json_loads := j\<rparr>) ciph m =
             cbc_encrypt L ciph m" for ciph m
      by (simp add: cbc_encrypt_def)
    show ?thesis
      by (simp add: encrypt_params_def Let_def a b split: sum.split)
  qed
next
  assume "valid_material c"
  then show "encrypt_params L c params =
        Inr (b64_groups (fst (cbc_encrypt_blocks (aes_encrypt_block L (key_bin c)) (iv_bin c)
                                (pad (encode_utf8 (urlencode params)) 16))) @ [CHR 0x0A])"
    by (rule encrypt_params_valid)
next
  assume "\<not> valid_material c"
  then show "\<exists>msg. encrypt_params L c params = Inl (ValueError msg)"
    by (rule encrypt_params_invalid)
next
  define reqs where "reqs = (case encrypt_params L (self_cipher self) params of
                           Inl e \<Rightarrow> [] | Inr blob \<Rightarrow> [request_for self endpoint blob])"
  have "posted (snd (post_request L net self endpoint params evs)) = posted evs @ reqs" for net evs
  proof -
    obtain r evs1 where p: "post_request L net self endpoint params evs = (r, evs1)"
      by (cases "post_request L net self endpoint params evs") simp
    from post_request_trace [OF p] show ?thesis
      by (auto simp: p reqs_def)
  qed
  then show "\<exists>reqs. \<forall>net evs. posted (snd (post_request L net self endpoint params evs)) = posted evs @ reqs"
    by blast
qed

theorem encode_deterministic_witness:
  "valid_material demo_cipher \<and>
   encrypt_params demo_lib demo_cipher [(''operation'', ''get'')] =
     Inr (b64_groups (fst (cbc_encrypt_blocks (aes_encrypt_block demo_lib (key_bin demo_cipher))
                             (iv_bin demo_cipher)
                             (pad (encode_utf8 (urlencode [(''operation'', ''get'')])) 16))) @ [CHR 0x0A]) \<and>
   encrypt_params
     (demo_lib\<lparr>get_random_bytes := (\<lambda>n. replicate n 255), aes_decrypt_block := (\<lambda>k b. b),
               json_loads := (\<lambda>b. Inr JNull)\<rparr>) demo_cipher [(''operation'', ''get'')] =
     encrypt_params demo_lib demo_cipher [(''operation'', ''get'')]"
proof -
  have v: "valid_material demo_cipher"
    by (simp add: valid_material_def demo_cipher_def)
  note c1 = encode_deterministic
    [where L = demo_lib and c = demo_cipher and params = "[(''operation'', ''get'')]",
     THEN conjunct2, THEN conjunct1, THEN mp, OF v]
  note c2 = encode_deterministic
    [where L = demo_lib and c = demo_cipher and params = "[(''operation'', ''get'')]"
       and g = "\<lambda>n. replicate n 255" and d = "\<lambda>k b. b" and j = "\<lambda>b. Inr JNull",
     THEN conjunct1]
  show ?thesis
    using v c1 c2 by (intro conjI)
qed

subsection \<open>Malformed blobs\<close>

text \<open>
  Claim C6. Decoding fails whenever one of its stages fails: a blob that is not
  base64, a ciphertext that is not a whole number of blocks, a plaintext whose
  padding is malformed, a message that does not parse. The error of the failing
  stage is the result, and the first three stages raise nothing but \<open>ValueError\<close>
  and its subclass \<open>binascii.Error\<close>. The padding is accepted exactly when the
  plaintext is a padded message, so corrupted padding is always an error; and a
  value is returned only when every stage succeeded, in which case it is what the
  parser made of the unpadded message.
\<close>

theorem decode_fails_on_malformed:
  "(valid_material c \<longrightarrow>
      (a2b_base64 blob = Inl e \<longrightarrow> decrypt_params L c blob = Inl e) \<and>
      (a2b_base64 blob = Inr raw \<and> length raw mod 16 \<noteq> 0 \<longrightarrow>
         decrypt_params L c blob =
           Inl (ValueError ''Data must be padded to 16 byte boundary in CBC mode'')) \<and>
      (a2b_base64 blob = Inr raw \<and> length raw mod 16 = 0 \<and>
       unpad (fst (cbc_decrypt_blocks (aes_decrypt_block L (key_bin c)) (iv_bin c) raw)) 16 = Inl e \<longrightarrow>
         decrypt_params L c blob = Inl e) \<and>
      (a2b_base64 blob = Inr raw \<and> length raw mod 16 = 0 \<and>
       unpad (fst (cbc_decrypt_blocks (aes_decrypt_block L (key_bin c)) (iv_bin c) raw)) 16 = Inr msg \<and>
       json_loads L msg = Inl e \<longrightarrow>
         decrypt_params L c blob = Inl e)) \<and>
   (\<not> valid_material c \<longrightarrow> (\<exists>text. decrypt_params L c blob = Inl (ValueError text))) \<and>
   ((unpad d 16 = Inr m) = (d = pad m 16)) \<and>
   (unpad d 16 = Inl e1 \<longrightarrow> is_value_error e1) \<and>
   (a2b_base64 blob = Inl e2 \<longrightarrow> is_value_error e2) \<and>
   (decrypt_params L c blob = Inr v \<longrightarrow>
      valid_material c \<and>
      (\<exists>raw' msg'. a2b_base64 blob = Inr raw' \<and> length raw' mod 16 = 0 \<and>
         fst (cbc_decrypt_blocks (aes_decrypt_block L (key_bin c)) (iv_bin c) raw') = pad msg' 16 \<and>
         json_loads L msg' = Inr v))"
proof (intro conjI impI)
  assume v: "valid_material c"
  note d = decrypt_params_valid [OF v, of L blob]
  show "decrypt_params L c blob = Inl e" if "a2b_base64 blob = Inl e"
    using that by (simp add: d)
  show "decrypt_params L c blob = Inl (ValueError ''Data must be padded to 16 byte boundary in CBC mode'')"
    if "a2b_base64 blob = Inr raw \<and> length raw mod 16 \<noteq> 0"
    using that by (simp add: d)
  show "decrypt_params L c blob = Inl e"
    if "a2b_base64 blob = Inr raw \<and> length raw mod 16 = 0 \<and>
       unpad (fst (cbc_decrypt_blocks (aes_decrypt_block L (key_bin c)) (iv_bin c) raw)) 16 = Inl e"
    using that by (simp add: d)
  show "decrypt_params L c blob = Inl e"
    if "a2b_base64 blob = Inr raw \<and> length raw mod 16 = 0 \<and>
       unpad (fst (cbc_decrypt_blocks (aes_decrypt_block L (key_bin c)) (iv_bin c) raw)) 16 = Inr msg \<and>
       json_loads L msg = Inl e"
    using that by (simp add: d)
next
  assume "\<not> valid_material c"
  then show "\<exists>text. decrypt_params L c blob = Inl (ValueError text)"
    by (rule decrypt_params_invalid)
next
  show "(unpad d 16 = Inr m) = (d = pad m 16)"
    by (rule unpad_iff)
next
  assume "unpad d 16 = Inl e1"
  then show "is_value_error e1" by (rule unpad_error)
next
  assume "a2b_base64 blob = Inl e2"
  then show "is_value_error e2" by (rule a2b_base64_error)
next
  assume r: "decrypt_params L c blob = Inr v"
  show v: "valid_material c"
  proof (rule ccontr)
    assume "\<not> valid_material c"
    from decrypt_params_invalid [OF this, of L blob] r show False by auto
  qed
  note d = decrypt_params_valid [OF v, of L blob]
  from r d obtain raw' where raw: "a2b_base64 blob = Inr raw'"
    by (cases "a2b_base64 blob") simp_all
  from r d raw have al: "length raw' mod 16 = 0"
    by (simp split: if_split_asm)
  from r d raw al obtain msg' where
    msg: "unpad (fst (cbc_decrypt_blocks (aes_decrypt_block L (key_bin c)) (iv_bin c) raw')) 16 = Inr msg'"
    by (cases "unpad (fst (cbc_decrypt_blocks (aes_decrypt_block L (key_bin c)) (iv_bin c) raw')) 16")
       simp_all
  from r d raw al msg have j: "json_loads L msg' = Inr v"
    by simp
  from msg have p: "fst (cbc_decrypt_blocks (aes_decrypt_block L (key_bin c)) (iv_bin c) raw') = pad msg' 16"
    by (rule unpad_Inr_pad)
  show "\<exists>raw' msg'. a2b_base64 blob = Inr raw' \<and> length raw' mod 16 = 0 \<and>
         fst (cbc_decrypt_blocks (aes_decrypt_block L (key_bin c)) (iv_bin c) raw') = pad msg' 16 \<and>
         json_loads L msg' = Inr v"
    by (rule exI [of _ raw'], rule exI [of _ msg']) (intro conjI raw al p j)
qed

theorem decode_fails_on_malformed_witness:
  "valid_material demo_cipher \<and>
   a2b_base64 (''i9KjhJGEhYPSytDSsYKdle/z8vP0+KH50svS0bWHm5M='' @ [CHR 0x0A]) =
     Inr [139, 210, 163, 132, 145, 132, 133, 131, 210, 202, 208, 210, 177, 130, 157, 149,
          239, 243, 242, 243, 244, 248, 161, 249, 210, 203, 210, 209, 181, 135, 155, 147] \<and>
   length [139, 210, 163, 132, 145, 132, 133, 131, 210, 202, 208, 210, 177, 130, 157, 149,
           239, 243, 242, 243, 244, 248, 161, 249, 210, 203, 210, 209, 181, 135, 155, 147 :: byte] mod 16 = 0 \<and>
   unpad (fst (cbc_decrypt_blocks (aes_decrypt_block demo_lib (key_bin demo_cipher)) (iv_bin demo_cipher)
            [139, 210, 163, 132, 145, 132, 133, 131, 210, 202, 208, 210, 177, 130, 157, 149,
             239, 243, 242, 243, 244, 248, 161, 249, 210, 203, 210, 209, 181, 135, 155, 147])) 16 =
     Inl (ValueError ''PKCS#7 padding is incorrect.'') \<and>
   decrypt_params demo_lib demo_cipher (''i9KjhJGEhYPSytDSsYKdle/z8vP0+KH50svS0bWHm5M='' @ [CHR 0x0A]) =
     Inl (ValueError ''PKCS#7 padding is incorrect.'')"
proof -
  have v: "valid_material demo_cipher"
    by (simp add: valid_material_def demo_cipher_def)
  have h: "a2b_base64 (''i9KjhJGEhYPSytDSsYKdle/z8vP0+KH50svS0bWHm5M='' @ [CHR 0x0A]) =
     Inr [139, 210, 163, 132, 145, 132, 133, 131, 210, 202, 208, 210, 177, 130, 157, 149,
          239, 243, 242, 243, 244, 248, 161, 249, 210, 203, 210, 209, 181, 135, 155, 147] \<and>
   length [139, 210, 163, 132, 145, 132, 133, 131, 210, 202, 208, 210, 177, 130, 157, 149,
           239, 243, 242, 243, 244, 248, 161, 249, 210, 203, 210, 209, 181, 135, 155, 147 :: byte] mod 16 = 0 \<and>
   unpad (fst (cbc_decrypt_blocks (aes_decrypt_block demo_lib (key_bin demo_cipher)) (iv_bin demo_cipher)
            [139, 210, 163, 132, 145, 132, 133, 131, 210, 202, 208, 210, 177, 130, 157, 149,
             239, 243, 242, 243, 244, 248, 161, 249, 210, 203, 210, 209, 181, 135, 155, 147])) 16 =
     Inl (ValueError ''PKCS#7 padding is incorrect.'')"
    by code_simp
  note c = decode_fails_on_malformed
    [where L = demo_lib and c = demo_cipher, THEN conjunct1, THEN mp, OF v,
     THEN conjunct2, THEN conjunct2, THEN conjunct1, THEN mp, OF h]
  show ?thesis
    using v h c by (intro conjI) (elim conjE, assumption)+
qed

subsection \<open>Decoding an encoded parameter set\<close>

lemma encode_stages:
  assumes v: "valid_material c" and inv: "block_cipher_inverts L (key_bin c)"
  shows "\<exists>raw. encrypt_params L c params = Inr (b64_groups raw @ [CHR 0x0A]) \<and>
           a2b_base64 (b64_groups raw @ [CHR 0x0A]) = Inr raw \<and> length raw mod 16 = 0 \<and>
           fst (cbc_decrypt_blocks (aes_decrypt_block L (key_bin c)) (iv_bin c) raw) =
             pad (encode_utf8 (urlencode params)) 16"
proof -
  define m where "m = encode_utf8 (urlencode params)"
  define E where "E = aes_encrypt_block L (key_bin c)"
  define D where "D = aes_decrypt_block L (key_bin c)"
  define ct where "ct = fst (cbc_encrypt_blocks E (iv_bin c) (pad m 16))"
  have e: "encrypt_params L c params = Inr (b64_groups ct @ [CHR 0x0A])"
    by (simp add: encrypt_params_valid [OF v] ct_def E_def m_def)
  have ED: "\<And>b. length b = 16 \<Longrightarrow> D (E b) = b \<and> length (E b) = 16"
    using inv by (simp add: block_cipher_inverts_def D_def E_def)
  have iv: "length (iv_bin c) = 16"
    using v by (simp add: valid_material_def)
  have rt: "fst (cbc_decrypt_blocks D (iv_bin c) ct) = pad m 16" and len: "length ct = length (pad m 16)"
    using cbc_blocks_roundtrip [of D E "iv_bin c" "pad m 16", OF ED iv length_pad]
    by (simp_all add: ct_def)
  have al: "length ct mod 16 = 0"
    by (simp add: len length_pad)
  show ?thesis
    by (rule exI [of _ ct]) (intro conjI e a2b_b2a_base64 al rt [unfolded D_def m_def])
qed

text \<open>
  Claim C1, as amended. For every parameter set, every key and IV of valid length and
  every block transformation whose decryption undoes its encryption, encoding
  returns a blob, and the stages of decoding before the parser (base64, CBC,
  unpadding) turn that blob back into exactly the URL-encoded bytes of the parameter
  set. Decoding then hands these bytes to the JSON parser: its result is whatever
  \<open>json.loads\<close> makes of the URL-encoded form, not the parameter set.
\<close>

theorem decode_of_encode:
  "valid_material c \<and> block_cipher_inverts L (key_bin c) \<longrightarrow>
     (\<exists>blob raw.
        encrypt_params L c params = Inr blob \<and>
        a2b_base64 blob = Inr raw \<and> length raw mod 16 = 0 \<and>
        unpad (fst (cbc_decrypt_blocks (aes_decrypt_block L (key_bin c)) (iv_bin c) raw)) 16 =
          Inr (encode_utf8 (urlencode params)) \<and>
        decrypt_params L c blob = json_loads L (encode_utf8 (urlencode params)))"
proof (intro impI, elim conjE)
  assume v: "valid_material c" and inv: "block_cipher_inverts L (key_bin c)"
  from encode_stages [OF v inv, of params]
  obtain raw where e: "encrypt_params L c params = Inr (b64_groups raw @ [CHR 0x0A])"
    and a: "a2b_base64 (b64_groups raw @ [CHR 0x0A]) = Inr raw" and al: "length raw mod 16 = 0"
    and p: "fst (cbc_decrypt_blocks (aes_decrypt_block L (key_bin c)) (iv_bin c) raw) =
             pad (encode_utf8 (urlencode params)) 16"
    by (elim exE conjE)
  have u: "unpad (fst (cbc_decrypt_blocks (aes_decrypt_block L (key_bin c)) (iv_bin c) raw)) 16 =
          Inr (encode_utf8 (urlencode params))"
    by (simp only: p unpad_pad)
  have d: "decrypt_params L c (b64_groups raw @ [CHR 0x0A]) = json_loads L (encode_utf8 (urlencode params))"
    using al by (simp add: decrypt_params_valid [OF v] a u)
  show "\<exists>blob raw.
        encrypt_params L c params = Inr blob \<and>
        a2b_base64 blob = Inr raw \<and> length raw mod 16 = 0 \<and>
        unpad (fst (cbc_decrypt_blocks (aes_decrypt_block L (key_bin c)) (iv_bin c) raw)) 16 =
          Inr (encode_utf8 (urlencode params)) \<and>
        decrypt_params L c blob = json_loads L (encode_utf8 (urlencode params))"
    by (rule exI [of _ "b64_groups raw @ [CHR 0x0A]"], rule exI [of _ raw]) (intro conjI e a al u d)
qed

theorem decode_of_encode_witness:
  "valid_material demo_cipher \<and> block_cipher_inverts demo_lib (key_bin demo_cipher) \<and>
   encrypt_params demo_lib demo_cipher [(''operation'', ''get'')] =
     Inr (''n4CVgpGEmZ+ezZeVhPPz8w=='' @ [CHR 0x0A]) \<and>
   decrypt_params demo_lib demo_cipher (''n4CVgpGEmZ+ezZeVhPPz8w=='' @ [CHR 0x0A]) =
     json_loads demo_lib (encode_utf8 (urlencode [(''operation'', ''get'')]))"
proof -
  have v: "valid_material demo_cipher"
    by (simp add: valid_material_def demo_cipher_def)
  have i: "block_cipher_inverts demo_lib (key_bin demo_cipher)"
    by (rule xor_block_inverts) (simp add: demo_cipher_def)
  have e: "encrypt_params demo_lib demo_cipher [(''operation'', ''get'')] =
     Inr (''n4CVgpGEmZ+ezZeVhPPz8w=='' @ [CHR 0x0A])"
    by code_simp
  from decode_of_encode [where params = "[(''operation'', ''get'')]", THEN mp, OF conjI, OF v i]
  obtain blob where b: "encrypt_params demo_lib demo_cipher [(''operation'', ''get'')] = Inr blob"
    and d: "decrypt_params demo_lib demo_cipher blob =
              json_loads demo_lib (encode_utf8 (urlencode [(''operation'', ''get'')]))"
    by (elim exE conjE)
  from b e have "blob = ''n4CVgpGEmZ+ezZeVhPPz8w=='' @ [CHR 0x0A]"
    by (simp only: sum.inject)
  with d have d': "decrypt_params demo_lib demo_cipher (''n4CVgpGEmZ+ezZeVhPPz8w=='' @ [CHR 0x0A]) =
     json_loads demo_lib (encode_utf8 (urlencode [(''operation'', ''get'')]))"
    by (simp only:)
  show ?thesis
    using v i e d' by (intro conjI)
qed

text \<open>
  The claim as stated fails: decoding the blob of the parameter set
  \<open>operation=get\<close> raises, because the URL-encoded form is not a JSON document.
  The evaluation runs the stand-in block transformation; by the theorem above the
  parser receives the same bytes under every block transformation that can be
  inverted, AES among them.
\<close>

theorem decode_of_encode_counterexample:
  "encrypt_params demo_lib demo_cipher [(''operation'', ''get'')] =
     Inr (''n4CVgpGEmZ+ezZeVhPPz8w=='' @ [CHR 0x0A]) \<and>
   decrypt_params demo_lib demo_cipher (''n4CVgpGEmZ+ezZeVhPPz8w=='' @ [CHR 0x0A]) =
     Inl (JSONDecodeError ''Expecting value'')"
  by code_simp

end
